theory Spec2Isabelle
  imports
    Main
    "HOL-Library.Char_ord"
    "HOL-Library.List_Lexorder"
    "HOL-Library.Option_ord"
    "HOL-Library.Product_Lexorder"
begin

section \<open>Executor interface (tdp/core/runner/executor.py)\<close>

text \<open>
  \<^verbatim>\<open>class StateEnum(Enum): SUCCESS = "Success"; FAILURE = "Failure"\<close>.
  The members are kept in declaration order, as \<^verbatim>\<open>cls.__members__\<close> holds them.
\<close>

datatype StateEnum = SUCCESS | FAILURE

definition StateEnum_members :: "StateEnum list" where
  "StateEnum_members = [SUCCESS, FAILURE]"

fun StateEnum_value :: "StateEnum \<Rightarrow> string" where
  "StateEnum_value SUCCESS = ''Success''"
| "StateEnum_value FAILURE = ''Failure''"

fun StateEnum_name :: "StateEnum \<Rightarrow> string" where
  "StateEnum_name SUCCESS = ''SUCCESS''"
| "StateEnum_name FAILURE = ''FAILURE''"

text \<open>
  \<^verbatim>\<open>has_value\<close> takes any Python object. The objects a caller can pass are modelled
  by a closed universe of the built-in kinds and the enum's own members; a plain
  \<^verbatim>\<open>Enum\<close> member is not a \<^verbatim>\<open>str\<close>, so it compares unequal to every string.
\<close>

datatype py_value =
    PyNone
  | PyBool bool
  | PyInt int
  | PyStr string
  | PyBytes string
  | PyMember StateEnum

text \<open>Python's \<^verbatim>\<open>==\<close> on these objects: \<^verbatim>\<open>True == 1\<close> and \<^verbatim>\<open>False == 0\<close>,
  everything else compares by kind and content.\<close>

fun py_eq :: "py_value \<Rightarrow> py_value \<Rightarrow> bool" where
  "py_eq (PyBool b) (PyInt i) = (i = (if b then 1 else 0))"
| "py_eq (PyInt i) (PyBool b) = (i = (if b then 1 else 0))"
| "py_eq x y = (x = y)"

text \<open>\<^verbatim>\<open>value in iterable\<close>: true as soon as one element equals the value.\<close>

fun py_in :: "py_value \<Rightarrow> py_value list \<Rightarrow> bool" where
  "py_in v [] = False"
| "py_in v (x # xs) = (if py_eq x v then True else py_in v xs)"

text \<open>\<^verbatim>\<open>return value in (v.value for v in cls.__members__.values())\<close>\<close>

definition has_value :: "py_value \<Rightarrow> bool" where
  "has_value v = py_in v (map (\<lambda>m. PyStr (StateEnum_value m)) StateEnum_members)"

section \<open>Persistent model (tdp.core.models)\<close>

text \<open>
  The enums and entities of \<^verbatim>\<open>tdp.core.models\<close> as the sources under study use them
  (field by field as the specification's data model lists them). Enum members are
  prefixed where two enums share a member name.
\<close>

datatype FilterTypeEnum = GLOB | REGEX

fun FilterTypeEnum_name :: "FilterTypeEnum \<Rightarrow> string" where
  "FilterTypeEnum_name GLOB = ''GLOB''"
| "FilterTypeEnum_name REGEX = ''REGEX''"

datatype DeploymentTypeEnum = DAG | OPERATIONS | RESUME | RECONFIGURE

datatype DeploymentStateEnum = Dep_PLANNED | Dep_RUNNING | Dep_SUCCESS | Dep_FAILURE

fun DeploymentStateEnum_name :: "DeploymentStateEnum \<Rightarrow> string" where
  "DeploymentStateEnum_name Dep_PLANNED = ''PLANNED''"
| "DeploymentStateEnum_name Dep_RUNNING = ''RUNNING''"
| "DeploymentStateEnum_name Dep_SUCCESS = ''SUCCESS''"
| "DeploymentStateEnum_name Dep_FAILURE = ''FAILURE''"

datatype OperationStateEnum = Op_PLANNED | Op_RUNNING | Op_SUCCESS | Op_FAILURE | Op_HELD

record OperationLog =
  ol_deployment_id :: "int option"
  operation :: string
  ol_state :: OperationStateEnum
  ol_start_time :: "nat option"
  ol_end_time :: "nat option"
  logs :: string

record ComponentVersionLog =
  cv_deployment_id :: "int option"
  cv_service :: string
  cv_component :: "string option"
  cv_version :: string

record DeploymentLog =
  dl_id :: "int option"
  sources :: "string list option"
  targets :: "string list option"
  filter_expression :: "string option"
  filter_type :: "FilterTypeEnum option"
  restart :: bool
  deployment_type :: DeploymentTypeEnum
  dl_state :: DeploymentStateEnum
  dl_start_time :: "nat option"
  dl_end_time :: "nat option"
  operations :: "OperationLog list"
  component_version :: "ComponentVersionLog list"

text \<open>A persisted row of the table the version query reads (\<^verbatim>\<open>ServiceComponentLog\<close>
  in \<^verbatim>\<open>queries.py\<close>); \<^verbatim>\<open>component\<close> is the nullable column.\<close>

record ServiceComponentLog =
  deployment_id :: int
  service :: string
  component :: "string option"
  version :: string

text \<open>
  The database session: the persisted deployments, each owning its operation logs
  (the ORM's object graph), and the table of service component logs.
\<close>

record Session =
  deployment_logs :: "DeploymentLog list"
  service_component_logs :: "ServiceComponentLog list"

definition query_OperationLog :: "Session \<Rightarrow> OperationLog list" where
  "query_OperationLog session = concat (map operations (deployment_logs session))"

section \<open>Exceptions and the ORM's result cardinality\<close>

datatype exn =
    NoResultFound
  | MultipleResultsFound
  | KeyError string
  | Exception string

text \<open>\<^verbatim>\<open>Query.one()\<close>: exactly one row, else \<^verbatim>\<open>NoResultFound\<close> or
  \<^verbatim>\<open>MultipleResultsFound\<close>.\<close>

fun one :: "'a list \<Rightarrow> exn + 'a" where
  "one [] = Inl NoResultFound"
| "one [x] = Inr x"
| "one (x # y # zs) = Inl MultipleResultsFound"

text \<open>\<^verbatim>\<open>Query.one_or_none()\<close>: \<^verbatim>\<open>None\<close> for no row.\<close>

fun one_or_none :: "'a list \<Rightarrow> exn + 'a option" where
  "one_or_none [] = Inr None"
| "one_or_none [x] = Inr (Some x)"
| "one_or_none (x # y # zs) = Inl MultipleResultsFound"

text \<open>Python's \<^verbatim>\<open>str\<close> of an integer, for the f-strings of the messages.\<close>

fun digit_char :: "nat \<Rightarrow> char" where
  "digit_char n = char_of (48 + n)"

fun str_nat :: "nat \<Rightarrow> string" where
  "str_nat n = (if n < 10 then [digit_char n] else str_nat (n div 10) @ [digit_char (n mod 10)])"

definition str_int :: "int \<Rightarrow> string" where
  "str_int i = (if i < 0 then CHR ''-'' # str_nat (nat (- i)) else str_nat (nat i))"

section \<open>Query layer (tdp/cli/queries.py)\<close>

text \<open>
  SQL comparison of a nullable column inside a row-value \<^verbatim>\<open>IN\<close>: the comparison is
  true only when both sides are non-null and equal (a null makes it unknown, and the
  filter keeps a row only when the whole condition is true).
\<close>

fun sql_eq :: "'a option \<Rightarrow> 'a option \<Rightarrow> bool" where
  "sql_eq (Some x) (Some y) = (x = y)"
| "sql_eq _ _ = False"

text \<open>
  The subquery: \<^verbatim>\<open>SELECT max(deployment_id), service, component ... GROUP BY service,
  component\<close>. Grouping puts the rows whose component is null in one group per service.
\<close>

definition latest_deployed_service_component ::
    "ServiceComponentLog list \<Rightarrow> (int \<times> string \<times> string option) list" where
  "latest_deployed_service_component rows =
     map (\<lambda>(s, c).
            (Max (set (map deployment_id
                        (filter (\<lambda>r. service r = s \<and> component r = c) rows))), s, c))
         (remdups (map (\<lambda>r. (service r, component r)) rows))"

text \<open>First disjunct: \<^verbatim>\<open>tuple_(deployment_id, service, component).in_(subquery)\<close>.\<close>

definition in_latest_component ::
    "(int \<times> string \<times> string option) list \<Rightarrow> ServiceComponentLog \<Rightarrow> bool" where
  "in_latest_component sub r =
     list_ex (\<lambda>(m, s, c). deployment_id r = m \<and> service r = s \<and> sql_eq (component r) c) sub"

text \<open>Second disjunct: \<^verbatim>\<open>tuple_(deployment_id, service).in_(select(max, service))\<close>
  with the component column removed from the subquery, and
  \<^verbatim>\<open>component IS NULL\<close>.\<close>

definition in_latest_service ::
    "(int \<times> string \<times> string option) list \<Rightarrow> ServiceComponentLog \<Rightarrow> bool" where
  "in_latest_service sub r =
     (list_ex (\<lambda>(m, s, c). deployment_id r = m \<and> service r = s) sub \<and> component r = None)"

text \<open>
  \<^verbatim>\<open>ORDER BY deployment_id DESC, service, component\<close>, then the projection
  \<^verbatim>\<open>(deployment_id, service, component, substr(version, 1, 7))\<close>. A null component
  sorts first (SQLite); rows with equal keys keep their table order.
\<close>

definition get_latest_success_service_component_version_query ::
    "Session \<Rightarrow> (int \<times> string \<times> string option \<times> string) list" where
  "get_latest_success_service_component_version_query session =
     (let rows = service_component_logs session;
          sub = latest_deployed_service_component rows
      in map (\<lambda>r. (deployment_id r, service r, component r, take 7 (version r)))
           (sort_key (\<lambda>r. (- deployment_id r, service r, component r))
              (filter (\<lambda>r. in_latest_component sub r \<or> in_latest_service sub r) rows)))"

text \<open>\<^verbatim>\<open>get_deployment\<close>: \<^verbatim>\<open>filter_by(id=deployment_id).one()\<close>; a
  \<^verbatim>\<open>NoResultFound\<close> is re-raised as the "does not exist" exception.\<close>

definition get_deployment :: "Session \<Rightarrow> int \<Rightarrow> exn + DeploymentLog" where
  "get_deployment session did =
     (case one (filter (\<lambda>d. dl_id d = Some did) (deployment_logs session)) of
        Inl NoResultFound \<Rightarrow>
          Inl (Exception (''Deployment id '' @ str_int did @ '' does not exist.''))
      | Inl e \<Rightarrow> Inl e
      | Inr d \<Rightarrow> Inr d)"

text \<open>\<^verbatim>\<open>get_last_deployment\<close>: \<^verbatim>\<open>order_by(id.desc()).limit(1).one()\<close>.\<close>

definition order_by_id_desc :: "DeploymentLog list \<Rightarrow> DeploymentLog list" where
  "order_by_id_desc ds = rev (sort_key dl_id ds)"

definition get_last_deployment :: "Session \<Rightarrow> exn + DeploymentLog" where
  "get_last_deployment session =
     (case one (take 1 (order_by_id_desc (deployment_logs session))) of
        Inl NoResultFound \<Rightarrow> Inl (Exception ''No deployments.'')
      | Inl e \<Rightarrow> Inl e
      | Inr d \<Rightarrow> Inr d)"

text \<open>\<^verbatim>\<open>get_planned_deployment_log\<close>: \<^verbatim>\<open>filter_by(state="PLANNED").one_or_none()\<close>.
  The plan commands import a function of this name from their own \<^verbatim>\<open>utils\<close> module,
  which is not among the sources; this is the query of that name in \<^verbatim>\<open>queries.py\<close>.\<close>

definition get_planned_deployment_log :: "Session \<Rightarrow> exn + DeploymentLog option" where
  "get_planned_deployment_log session =
     one_or_none (filter (\<lambda>d. DeploymentStateEnum_name (dl_state d) = ''PLANNED'')
                    (deployment_logs session))"

text \<open>\<^verbatim>\<open>get_operation_log\<close>:
  \<^verbatim>\<open>filter_by(deployment_id=deployment_id, operation=operation_name).one()\<close>.\<close>

definition get_operation_log :: "Session \<Rightarrow> int \<Rightarrow> string \<Rightarrow> exn + OperationLog" where
  "get_operation_log session did operation_name =
     (case one (filter (\<lambda>l. ol_deployment_id l = Some did \<and> operation l = operation_name)
                  (query_OperationLog session)) of
        Inl NoResultFound \<Rightarrow>
          Inl (Exception (''Operation '' @ operation_name @ '' does not exist in deployment ''
                          @ str_int did @ ''.''))
      | Inl e \<Rightarrow> Inl e
      | Inr l \<Rightarrow> Inr l)"

section \<open>The plan dag command (tdp/cli/commands/plan/dag.py)\<close>

text \<open>
  The two flags that share the parameter \<^verbatim>\<open>filter_type\<close>, each with the
  \<^verbatim>\<open>flag_value\<close> its \<^verbatim>\<open>click.option\<close> declares.
\<close>

datatype filter_flag = glob_flag | regex_flag

fun flag_value :: "filter_flag \<Rightarrow> string" where
  "flag_value glob_flag = FilterTypeEnum_name REGEX"
| "flag_value regex_flag = FilterTypeEnum_name REGEX"

text \<open>\<^verbatim>\<open>FilterTypeEnum[value]\<close>: lookup of a member by name.\<close>

definition FilterTypeEnum_getitem :: "string \<Rightarrow> exn + FilterTypeEnum" where
  "FilterTypeEnum_getitem n =
     (if n = FilterTypeEnum_name GLOB then Inr GLOB
      else if n = FilterTypeEnum_name REGEX then Inr REGEX
      else Inl (KeyError n))"

fun validate_filtertype :: "string option \<Rightarrow> exn + FilterTypeEnum option" where
  "validate_filtertype (Some v) =
     (case FilterTypeEnum_getitem v of Inl e \<Rightarrow> Inl e | Inr t \<Rightarrow> Inr (Some t))"
| "validate_filtertype None = Inr None"

text \<open>The value of the parameter \<^verbatim>\<open>filter_type\<close> for the flag given on the command
  line (none: the parameter stays \<^verbatim>\<open>None\<close>).\<close>

definition filter_type_param :: "filter_flag option \<Rightarrow> exn + FilterTypeEnum option" where
  "filter_type_param flag = validate_filtertype (map_option flag_value flag)"

text \<open>\<^verbatim>\<open>str.split(sep)\<close> for a one-character separator.\<close>

fun split :: "char \<Rightarrow> string \<Rightarrow> string list" where
  "split sep [] = [[]]"
| "split sep (c # cs) =
     (if c = sep then [] # split sep cs
      else (case split sep cs of w # ws \<Rightarrow> (c # w) # ws | [] \<Rightarrow> [[c]]))"

text \<open>\<^verbatim>\<open>if sources: sources = sources.split(",")\<close>: an absent or empty option lists
  no node (the empty string, falsy like \<^verbatim>\<open>None\<close>, is handed on as \<^verbatim>\<open>None\<close>).\<close>

fun split_nodes :: "string option \<Rightarrow> string list option" where
  "split_nodes None = None"
| "split_nodes (Some []) = None"
| "split_nodes (Some s) = Some (split (CHR '','') s)"

fun nodes_of :: "string list option \<Rightarrow> string set" where
  "nodes_of None = {}"
| "nodes_of (Some ns) = set ns"

datatype bad_parameter = DoesNotExist string | NotValidNodes "string set"

datatype cli_error = BadParameter bad_parameter | ClickException string | Uncaught exn

datatype echo =
    CreatingFrom "string list"
  | CreatingTo "string list"
  | CreatingWholeDag
  | SuccessfullyCreated

text \<open>What the command hands to \<^verbatim>\<open>DeploymentPlan.from_dag\<close>.\<close>

record dag_request =
  rq_sources :: "string list option"
  rq_targets :: "string list option"
  rq_filter_expression :: "string option"
  rq_filter_type :: "FilterTypeEnum option"
  rq_restart :: bool

text \<open>
  \<^verbatim>\<open>session.merge(deployment_log); session.commit()\<close>: an object whose primary key
  is set and present replaces that row; otherwise a row is added, with the next id
  when the object has none. The owned operation logs get the row's id.
\<close>

definition next_id :: "DeploymentLog list \<Rightarrow> int" where
  "next_id ds = fold max (List.map_filter dl_id ds) 0 + 1"

definition with_id :: "int \<Rightarrow> DeploymentLog \<Rightarrow> DeploymentLog" where
  "with_id i d =
     d\<lparr>dl_id := Some i,
       operations := map (\<lambda>l. l\<lparr>ol_deployment_id := Some i\<rparr>) (operations d)\<rparr>"

definition merge :: "Session \<Rightarrow> DeploymentLog \<Rightarrow> Session" where
  "merge session d =
     (let ds = deployment_logs session in
      case dl_id d of
        None \<Rightarrow> session\<lparr>deployment_logs := ds @ [with_id (next_id ds) d]\<rparr>
      | Some i \<Rightarrow>
          if Some i \<in> set (map dl_id ds)
          then session\<lparr>deployment_logs :=
                          map (\<lambda>r. if dl_id r = Some i then with_id i d else r) ds\<rparr>
          else session\<lparr>deployment_logs := ds @ [with_id i d]\<rparr>)"

text \<open>
  The command body. \<^verbatim>\<open>from_dag\<close> stands for \<^verbatim>\<open>DeploymentPlan.from_dag(dag, ...)\<close>
  (its exception, if any, as the message), \<^verbatim>\<open>dag_operations\<close> for the node names of
  \<^verbatim>\<open>Dag(collections)\<close>, \<^verbatim>\<open>vars_exists\<close> for \<^verbatim>\<open>vars.exists()\<close>. The result is the
  error raised, or the committed session with the lines echoed.
\<close>

definition dag ::
    "(dag_request \<Rightarrow> string + DeploymentLog) \<Rightarrow> string set \<Rightarrow> string \<Rightarrow> bool \<Rightarrow>
     string option \<Rightarrow> string option \<Rightarrow> string option \<Rightarrow> FilterTypeEnum option \<Rightarrow> bool \<Rightarrow>
     Session \<Rightarrow> cli_error + (Session \<times> echo list)" where
  "dag from_dag dag_operations vars vars_exists srcs tgts filter_ex ftype rstart session =
     (if \<not> vars_exists then Inl (BadParameter (DoesNotExist vars))
      else
        let sources' = split_nodes srcs;
            targets' = split_nodes tgts;
            set_nodes = nodes_of sources' \<union> nodes_of targets';
            set_difference = set_nodes - dag_operations
        in if set_difference \<noteq> {} then Inl (BadParameter (NotValidNodes set_difference))
           else
             let line = (case sources' of
                           Some ss \<Rightarrow> CreatingFrom ss
                         | None \<Rightarrow> (case targets' of
                                      Some ts \<Rightarrow> CreatingTo ts
                                    | None \<Rightarrow> CreatingWholeDag))
             in case from_dag \<lparr>rq_sources = sources', rq_targets = targets',
                               rq_filter_expression = filter_ex, rq_filter_type = ftype,
                               rq_restart = rstart\<rparr> of
                  Inl msg \<Rightarrow> Inl (ClickException msg)
                | Inr deployment_log \<Rightarrow>
                    (case get_planned_deployment_log session of
                       Inl e \<Rightarrow> Inl (Uncaught e)
                     | Inr planned \<Rightarrow>
                         let deployment_log' =
                               (case planned of
                                  Some p \<Rightarrow> deployment_log\<lparr>dl_id := dl_id p\<rparr>
                                | None \<Rightarrow> deployment_log)
                         in Inr (merge session deployment_log',
                                 [line, SuccessfullyCreated])))"

text \<open>The command as invoked: the flag is turned into \<^verbatim>\<open>filter_type\<close> by its callback
  before the body runs.\<close>

definition dag_command ::
    "(dag_request \<Rightarrow> string + DeploymentLog) \<Rightarrow> string set \<Rightarrow> string \<Rightarrow> bool \<Rightarrow>
     string option \<Rightarrow> string option \<Rightarrow> string option \<Rightarrow> filter_flag option \<Rightarrow> bool \<Rightarrow>
     Session \<Rightarrow> cli_error + (Session \<times> echo list)" where
  "dag_command from_dag dag_operations vars vars_exists srcs tgts filter_ex flag rstart session =
     (case filter_type_param flag of
        Inl e \<Rightarrow> Inl (Uncaught e)
      | Inr ftype \<Rightarrow>
          dag from_dag dag_operations vars vars_exists srcs tgts filter_ex ftype rstart session)"

section \<open>Deployment plans (DeploymentLog.from_operations, from_failed_deployment)\<close>

text \<open>
  Modelled from the spec: the operation catalog (\<^verbatim>\<open>Collections\<close>) and the plan
  constructors of \<^verbatim>\<open>tdp.core.deployment\<close> / \<^verbatim>\<open>tdp.core.models\<close> are not among
  the sources; only their tests are. An operation carries what the specification's
  data model lists: name, service, optional component, action, the noop mark and its
  hosts.
\<close>

record Operation =
  op_name :: string
  op_service :: string
  op_component :: "string option"
  op_action :: string
  noop :: bool
  host_names :: "string list"

type_synonym Collections = "string \<rightharpoonup> Operation"

datatype plan_error = EmptyDeployment | UnknownOperation string

text \<open>A fresh operation log: state PLANNED, nothing recorded yet.\<close>

definition planned_operation :: "string \<Rightarrow> OperationLog" where
  "planned_operation n =
     \<lparr>ol_deployment_id = None, operation = n, ol_state = Op_PLANNED,
      ol_start_time = None, ol_end_time = None, logs = []\<rparr>"

definition planned_deployment :: "DeploymentTypeEnum \<Rightarrow> string list \<Rightarrow> DeploymentLog" where
  "planned_deployment ty names =
     \<lparr>dl_id = None, sources = None, targets = None, filter_expression = None,
      filter_type = None, restart = False, deployment_type = ty, dl_state = Dep_PLANNED,
      dl_start_time = None, dl_end_time = None,
      operations = map planned_operation names, component_version = []\<rparr>"

text \<open>
  Modelled from the spec: \<^verbatim>\<open>from_operations(collections, names)\<close> keeps the caller's
  order, every name must be a known operation, and an empty plan fails with
  \<^verbatim>\<open>EmptyDeployment\<close>.
\<close>

definition from_operations :: "Collections \<Rightarrow> string list \<Rightarrow> plan_error + DeploymentLog" where
  "from_operations collections names =
     (case filter (\<lambda>n. collections n = None) names of
        n # _ \<Rightarrow> Inl (UnknownOperation n)
      | [] \<Rightarrow> if names = [] then Inl EmptyDeployment
              else Inr (planned_deployment OPERATIONS names))"

text \<open>
  Modelled from the spec: \<^verbatim>\<open>from_failed_deployment(collections, failed_log)\<close> gives a
  plan of type RESUME that contains the failed operation and every subsequent operation
  of the failed plan, in the same order, starting at the failure point; an empty plan
  fails with \<^verbatim>\<open>EmptyDeployment\<close>.
\<close>

definition from_failed_deployment :: "Collections \<Rightarrow> DeploymentLog \<Rightarrow> plan_error + DeploymentLog" where
  "from_failed_deployment collections failed_log =
     (let names = map operation
                    (dropWhile (\<lambda>l. ol_state l \<noteq> Op_FAILURE) (operations failed_log))
      in if names = [] then Inl EmptyDeployment
         else Inr (planned_deployment RESUME names))"

text \<open>The index of the first failed operation, as the test computes it
  (\<^verbatim>\<open>operations.index(next(filter(state == FAILURE, operations)))\<close>); the list's
  length when none failed.\<close>

fun index_of_first_failure :: "OperationLog list \<Rightarrow> nat" where
  "index_of_first_failure [] = 0"
| "index_of_first_failure (l # ls) =
     (if ol_state l = Op_FAILURE then 0 else Suc (index_of_first_failure ls))"

section \<open>Deployment runner (DeploymentRunner.run, DeploymentIterator)\<close>

text \<open>
  Modelled from the spec: \<^verbatim>\<open>tdp.core.deployment.deployment_runner\<close> is not among the
  sources. The definitions follow the specification's per-step algorithm and its
  component-version emission rule. The executor is a function of its own state (the
  test's failing executor counts its calls) and the operation; it returns a
  \<^verbatim>\<open>StateEnum\<close> and the logs. The clock is a counter read at every "now".
\<close>

type_synonym component_key = "string \<times> string option"

record 'e runner_state =
  executor_state :: 'e
  last_configured :: "component_key \<rightharpoonup> string"
  emitted :: "component_key set"
  clock :: nat

fun operation_state_of :: "StateEnum \<Rightarrow> OperationStateEnum" where
  "operation_state_of SUCCESS = Op_SUCCESS"
| "operation_state_of FAILURE = Op_FAILURE"

definition key_of :: "Operation \<Rightarrow> component_key" where
  "key_of op = (op_service op, op_component op)"

definition is_config :: "Operation \<Rightarrow> bool" where
  "is_config op = (op_action op = ''config'')"

definition is_start_or_restart :: "Operation \<Rightarrow> bool" where
  "is_start_or_restart op = (op_action op = ''start'' \<or> op_action op = ''restart'')"

text \<open>
  The emission rule. A successful config stores the current hash for the pair; a
  successful start or restart emits the stored hash when the pair has an entry and has
  not been emitted yet in this deployment, and marks the pair emitted.
\<close>

definition emit_component_version ::
    "(component_key \<Rightarrow> string) \<Rightarrow> int option \<Rightarrow> Operation \<Rightarrow> OperationStateEnum \<Rightarrow>
     'e runner_state \<Rightarrow> ComponentVersionLog option \<times> 'e runner_state" where
  "emit_component_version get_hash did op result st =
     (let key = key_of op in
      if result \<noteq> Op_SUCCESS then (None, st)
      else if is_config op
        then (None, st\<lparr>last_configured := (last_configured st)(key \<mapsto> get_hash key)\<rparr>)
      else if is_start_or_restart op
        then (case last_configured st key of
                None \<Rightarrow> (None, st)
              | Some h \<Rightarrow>
                  if key \<in> emitted st then (None, st)
                  else (Some \<lparr>cv_deployment_id = did, cv_service = fst key,
                               cv_component = snd key, cv_version = h\<rparr>,
                        st\<lparr>emitted := insert key (emitted st)\<rparr>))
      else (None, st))"

text \<open>Steps 2 to 6 for one operation: mark it RUNNING, execute it (a noop is a
  synthesized SUCCESS with empty logs, the executor is not called), record the end,
  apply the emission rule, yield the pair.\<close>

definition run_operation ::
    "('e \<Rightarrow> Operation \<Rightarrow> (StateEnum \<times> string) \<times> 'e) \<Rightarrow> (component_key \<Rightarrow> string) \<Rightarrow>
     int option \<Rightarrow> Operation \<Rightarrow> OperationLog \<Rightarrow> 'e runner_state \<Rightarrow>
     (OperationLog \<times> ComponentVersionLog option) \<times> 'e runner_state" where
  "run_operation execute get_hash did op l st =
     (let t = clock st;
          running = l\<lparr>ol_state := Op_RUNNING, ol_start_time := Some t\<rparr>;
          (res, es) = (if noop op then ((SUCCESS, []), executor_state st)
                       else execute (executor_state st) op);
          finished = running\<lparr>ol_state := operation_state_of (fst res), logs := snd res,
                             ol_end_time := Some (t + 1)\<rparr>;
          (cv, st') = emit_component_version get_hash did op (ol_state finished)
                        (st\<lparr>executor_state := es, clock := t + 2\<rparr>)
      in ((finished, cv), st'))"

text \<open>
  Draining the iterator over the plan's operations, in plan order. The result holds
  the pairs yielded, the operations never reached, and the deployment's terminal
  state: FAILURE stops the iteration right after the failed operation is yielded,
  SUCCESS is reached after the final operation succeeds. A name the catalog lacks
  raises.
\<close>

fun run_operations ::
    "Collections \<Rightarrow> ('e \<Rightarrow> Operation \<Rightarrow> (StateEnum \<times> string) \<times> 'e) \<Rightarrow>
     (component_key \<Rightarrow> string) \<Rightarrow> int option \<Rightarrow> OperationLog list \<Rightarrow> 'e runner_state \<Rightarrow>
     exn + ((OperationLog \<times> ComponentVersionLog option) list \<times> OperationLog list \<times>
            DeploymentStateEnum \<times> 'e runner_state)" where
  "run_operations collections execute get_hash did [] st = Inr ([], [], Dep_SUCCESS, st)"
| "run_operations collections execute get_hash did (l # ls) st =
     (case collections (operation l) of
        None \<Rightarrow> Inl (KeyError (operation l))
      | Some op \<Rightarrow>
          (case run_operation execute get_hash did op l st of
             (y, st') \<Rightarrow>
               if ol_state (fst y) = Op_FAILURE then Inr ([y], ls, Dep_FAILURE, st')
               else (case run_operations collections execute get_hash did ls st' of
                       Inl e \<Rightarrow> Inl e
                     | Inr (ys, rest, outcome, st'') \<Rightarrow> Inr (y # ys, rest, outcome, st''))))"

record 'e drained =
  yielded :: "(OperationLog \<times> ComponentVersionLog option) list"
  deployment_log :: DeploymentLog
  runner :: "'e runner_state"

definition initial_state :: "(component_key \<times> string) list \<Rightarrow> 'e \<Rightarrow> nat \<Rightarrow> 'e runner_state" where
  "initial_state stale_components es now =
     \<lparr>executor_state = es, last_configured = map_of stale_components, emitted = {},
      clock = now\<rparr>"

text \<open>
  \<^verbatim>\<open>DeploymentRunner(collections, executor, cluster_variables,
  stale_components).run(deployment_log)\<close>, drained. The first step sets the deployment
  RUNNING with its start time; the end sets the terminal state and the end time. The
  yielded operation logs replace the plan's entries in place, the operations never
  reached stay as they were, and the emitted version logs are appended in order. A
  plan with no operation has no step: the log is returned as it is.
\<close>

definition run ::
    "Collections \<Rightarrow> ('e \<Rightarrow> Operation \<Rightarrow> (StateEnum \<times> string) \<times> 'e) \<Rightarrow>
     (component_key \<Rightarrow> string) \<Rightarrow> (component_key \<times> string) list \<Rightarrow> 'e \<Rightarrow> nat \<Rightarrow>
     DeploymentLog \<Rightarrow> exn + 'e drained" where
  "run collections execute get_hash stale_components es now log =
     (if operations log = []
      then Inr \<lparr>yielded = [], deployment_log = log,
                runner = initial_state stale_components es now\<rparr>
      else
        (case run_operations collections execute get_hash (dl_id log) (operations log)
                (initial_state stale_components es (now + 1)) of
           Inl e \<Rightarrow> Inl e
         | Inr (ys, rest, outcome, st) \<Rightarrow>
             Inr \<lparr>yielded = ys,
                  deployment_log =
                    log\<lparr>dl_state := outcome, dl_start_time := Some now,
                        dl_end_time := Some (clock st),
                        operations := map fst ys @ rest,
                        component_version :=
                          component_version log @ List.map_filter snd ys\<rparr>,
                  runner = st\<lparr>clock := clock st + 1\<rparr>\<rparr>))"

section \<open>Notions used to state the properties\<close>

text \<open>The persisted deployments in state PLANNED.\<close>

definition planned_logs :: "Session \<Rightarrow> DeploymentLog list" where
  "planned_logs session = filter (\<lambda>d. dl_state d = Dep_PLANNED) (deployment_logs session)"

text \<open>The node names listed by \<^verbatim>\<open>--sources\<close> and \<^verbatim>\<open>--targets\<close>.\<close>

definition listed_nodes :: "string option \<Rightarrow> string option \<Rightarrow> string set" where
  "listed_nodes srcs tgts = nodes_of (split_nodes srcs) \<union> nodes_of (split_nodes tgts)"

text \<open>The operation logs of a deployment that carry an operation name.\<close>

definition matching_operation_logs :: "Session \<Rightarrow> int \<Rightarrow> string \<Rightarrow> OperationLog list" where
  "matching_operation_logs session did n =
     filter (\<lambda>l. ol_deployment_id l = Some did \<and> operation l = n) (query_OperationLog session)"

text \<open>The version logs of one (service, component) pair.\<close>

definition emitted_for :: "component_key \<Rightarrow> ComponentVersionLog list \<Rightarrow> ComponentVersionLog list" where
  "emitted_for p cvs = filter (\<lambda>c. (cv_service c, cv_component c) = p) cvs"

text \<open>A planned operation that is a config, respectively a start or restart, of the
  pair, according to the catalog.\<close>

definition config_on :: "Collections \<Rightarrow> component_key \<Rightarrow> OperationLog \<Rightarrow> bool" where
  "config_on collections p l =
     (case collections (operation l) of
        None \<Rightarrow> False
      | Some op \<Rightarrow> key_of op = p \<and> is_config op)"

definition start_on :: "Collections \<Rightarrow> component_key \<Rightarrow> OperationLog \<Rightarrow> bool" where
  "start_on collections p l =
     (case collections (operation l) of
        None \<Rightarrow> False
      | Some op \<Rightarrow> key_of op = p \<and> is_start_or_restart op)"

text \<open>Scanning a plan in order: does a start or restart of the pair come after a
  config of the pair (\<^verbatim>\<open>c\<close>: the pair is configured already)?\<close>

fun config_then_start :: "Collections \<Rightarrow> component_key \<Rightarrow> bool \<Rightarrow> OperationLog list \<Rightarrow> bool" where
  "config_then_start collections p c [] = False"
| "config_then_start collections p c (l # ls) =
     (if config_on collections p l then config_then_start collections p True ls
      else if start_on collections p l \<and> c then True
      else config_then_start collections p c ls)"

section \<open>Test fixtures (tdp/core/deployment/test_deployment_runner.py)\<close>

text \<open>The minimal catalog the tests run on: service-level and node-level operations of
  the service \<^verbatim>\<open>mock\<close>; \<^verbatim>\<open>mock_init\<close> is a noop.\<close>

definition mock_operation :: "string \<Rightarrow> string option \<Rightarrow> string \<Rightarrow> bool \<Rightarrow> string \<times> Operation" where
  "mock_operation svc cpt action is_noop =
     (let n = svc @ (case cpt of None \<Rightarrow> [] | Some c \<Rightarrow> CHR ''_'' # c) @ CHR ''_'' # action
      in (n, \<lparr>op_name = n, op_service = svc, op_component = cpt, op_action = action,
               noop = is_noop, host_names = []\<rparr>))"

definition minimal_operations :: "(string \<times> Operation) list" where
  "minimal_operations =
     [mock_operation ''mock'' None ''install'' False,
      mock_operation ''mock'' None ''config'' False,
      mock_operation ''mock'' None ''start'' False,
      mock_operation ''mock'' None ''restart'' False,
      mock_operation ''mock'' None ''init'' True,
      mock_operation ''mock'' (Some ''node'') ''install'' False,
      mock_operation ''mock'' (Some ''node'') ''config'' False,
      mock_operation ''mock'' (Some ''node'') ''start'' False,
      mock_operation ''mock'' (Some ''node'') ''restart'' False]"

definition minimal_collections :: Collections where
  "minimal_collections = map_of minimal_operations"

text \<open>\<^verbatim>\<open>MockExecutor.execute\<close>: always SUCCESS.\<close>

definition MockExecutor :: "unit \<Rightarrow> Operation \<Rightarrow> (StateEnum \<times> string) \<times> unit" where
  "MockExecutor u op = ((SUCCESS, op_name op @ '' LOG SUCCESS''), u)"

text \<open>\<^verbatim>\<open>FailingExecutor.execute\<close>: succeeds on its first call and fails on every
  later one; its state is \<^verbatim>\<open>self.count\<close>.\<close>

definition FailingExecutor :: "nat \<Rightarrow> Operation \<Rightarrow> (StateEnum \<times> string) \<times> nat" where
  "FailingExecutor count op =
     (if count > 0 then ((FAILURE, op_name op @ '' LOG FAILURE''), count)
      else ((SUCCESS, op_name op @ '' LOG SUCCESS''), count + 1))"

text \<open>An executor that fails every install operation and succeeds on the others.\<close>

definition InstallFailingExecutor :: "unit \<Rightarrow> Operation \<Rightarrow> (StateEnum \<times> string) \<times> unit" where
  "InstallFailingExecutor u op =
     (if op_action op = ''install'' then ((FAILURE, op_name op @ '' LOG FAILURE''), u)
      else ((SUCCESS, op_name op @ '' LOG SUCCESS''), u))"

definition mock_hash :: "component_key \<Rightarrow> string" where
  "mock_hash key = ''7b1f2c9d4e''"

text \<open>A stored history: deployment 1 configured and started the service and its node,
  deployment 2 reconfigured the service only, deployment 3 is planned and configures
  the node twice.\<close>

definition finished_deployment :: "int \<Rightarrow> string list \<Rightarrow> DeploymentLog" where
  "finished_deployment i names =
     (let d = with_id i (planned_deployment OPERATIONS names)
      in d\<lparr>dl_state := Dep_SUCCESS,
           operations := map (\<lambda>l. l\<lparr>ol_state := Op_SUCCESS\<rparr>) (operations d)\<rparr>)"

definition example_session :: Session where
  "example_session =
     \<lparr>deployment_logs =
        [finished_deployment 1 [''mock_config'', ''mock_start'', ''mock_node_config'',
                                ''mock_node_start''],
         finished_deployment 2 [''mock_config'', ''mock_restart''],
         with_id 3 (planned_deployment OPERATIONS
                      [''mock_node_config'', ''mock_node_start'', ''mock_node_config'',
                       ''mock_node_restart''])],
      service_component_logs =
        [\<lparr>deployment_id = 1, service = ''mock'', component = None,
          version = ''1a2b3c4d5e6f''\<rparr>,
         \<lparr>deployment_id = 1, service = ''mock'', component = Some ''node'',
          version = ''9f8e7d6c5b4a''\<rparr>,
         \<lparr>deployment_id = 2, service = ''mock'', component = None,
          version = ''0c0d0e0f1a1b''\<rparr>]\<rparr>"

text \<open>A failed deployment: the second operation failed, the rest was never run.\<close>

definition failed_deployment_example :: DeploymentLog where
  "failed_deployment_example =
     (planned_deployment DAG [''mock_install'', ''mock_config'', ''mock_start'', ''mock_init''])
       \<lparr>dl_state := Dep_FAILURE,
        operations :=
          [(planned_operation ''mock_install'')\<lparr>ol_state := Op_SUCCESS\<rparr>,
           (planned_operation ''mock_config'')\<lparr>ol_state := Op_FAILURE\<rparr>,
           planned_operation ''mock_start'',
           planned_operation ''mock_init'']\<rparr>"

text \<open>A stand-in for \<^verbatim>\<open>DeploymentPlan.from_dag\<close> on the minimal catalog: a planned
  deployment of type DAG that records the request.\<close>

definition example_from_dag :: "dag_request \<Rightarrow> string + DeploymentLog" where
  "example_from_dag rq =
     Inr ((planned_deployment DAG [''mock_install'', ''mock_config'', ''mock_start'',
                                   ''mock_init''])
            \<lparr>sources := rq_sources rq, targets := rq_targets rq,
             filter_expression := rq_filter_expression rq,
             filter_type := rq_filter_type rq, restart := rq_restart rq\<rparr>)"

definition minimal_dag_operations :: "string set" where
  "minimal_dag_operations = set (map fst minimal_operations)"

section \<open>Properties of the executor's state enum\<close>

text \<open>
  C10. For every input value, \<^verbatim>\<open>StateEnum.has_value\<close> is true exactly for the two
  strings "Success" and "Failure"; the member names and the members themselves are
  rejected.
\<close>

theorem C10_has_value_iff:
  "has_value v = (v = PyStr ''Success'' \<or> v = PyStr ''Failure'')"
  by (cases v) (auto simp: has_value_def StateEnum_members_def)

section \<open>Properties of the query layer\<close>

lemma one_multiple_iff: "one xs = Inl MultipleResultsFound \<longleftrightarrow> 2 \<le> length xs"
  by (cases xs rule: one.cases) auto

lemma filter_distinct_key:
  assumes "distinct (map f xs)" and "x \<in> set xs"
  shows "filter (\<lambda>y. f y = f x) xs = [x]"
  using assms
proof (induction xs)
  case Nil
  then show ?case by simp
next
  case (Cons a xs)
  show ?case
  proof (cases "a = x")
    case True
    with Cons.prems have "f x \<notin> f ` set xs" by simp
    then have "\<forall>y \<in> set xs. f y \<noteq> f x" by (metis imageI)
    then have "filter (\<lambda>y. f y = f x) xs = []" by (simp add: filter_empty_conv)
    with True show ?thesis by simp
  next
    case False
    with Cons.prems have "x \<in> set xs" "f a \<noteq> f x" by auto
    with Cons show ?thesis by simp
  qed
qed

lemma get_deployment_absent:
  assumes "\<forall>d \<in> set (deployment_logs s). dl_id d \<noteq> Some i"
  shows "get_deployment s i =
         Inl (Exception (''Deployment id '' @ str_int i @ '' does not exist.''))"
proof -
  from assms have "filter (\<lambda>d. dl_id d = Some i) (deployment_logs s) = []"
    by (simp add: filter_empty_conv)
  then show ?thesis by (simp add: get_deployment_def)
qed

lemma get_deployment_present:
  assumes "distinct (map dl_id (deployment_logs s))" "d \<in> set (deployment_logs s)"
    and "dl_id d = Some i"
  shows "get_deployment s i = Inr d"
proof -
  from filter_distinct_key[OF assms(1,2)] assms(3)
  have "filter (\<lambda>y. dl_id y = Some i) (deployment_logs s) = [d]" by simp
  then show ?thesis by (simp add: get_deployment_def)
qed

lemma sorted_le_last:
  "sorted xs \<Longrightarrow> x \<in> set xs \<Longrightarrow> x \<le> last xs"
  by (induction xs) auto

lemma get_last_deployment_empty:
  "deployment_logs s = [] \<Longrightarrow> get_last_deployment s = Inl (Exception ''No deployments.'')"
  by (simp add: get_last_deployment_def order_by_id_desc_def)

lemma get_last_deployment_nonempty:
  assumes "deployment_logs s \<noteq> []"
  shows "\<exists>d. d \<in> set (deployment_logs s) \<and> get_last_deployment s = Inr d \<and>
             (\<forall>d' \<in> set (deployment_logs s). dl_id d' \<le> dl_id d)"
proof -
  let ?xs = "sort_key dl_id (deployment_logs s)"
  from assms have ne: "?xs \<noteq> []" by (metis length_0_conv length_sort)
  then have tk: "take 1 (rev ?xs) = [last ?xs]"
    by (cases ?xs rule: rev_cases) auto
  have res: "get_last_deployment s = Inr (last ?xs)"
    using tk by (simp add: get_last_deployment_def order_by_id_desc_def)
  have mem: "last ?xs \<in> set (deployment_logs s)"
    using ne last_in_set[of ?xs] by simp
  have srt: "sorted (map dl_id ?xs)" by simp
  have "\<forall>d' \<in> set (deployment_logs s). dl_id d' \<le> dl_id (last ?xs)"
  proof
    fix d' assume "d' \<in> set (deployment_logs s)"
    then have "dl_id d' \<in> set (map dl_id ?xs)" by simp
    with srt have "dl_id d' \<le> last (map dl_id ?xs)" by (rule sorted_le_last)
    with ne show "dl_id d' \<le> dl_id (last ?xs)" by (simp add: last_map)
  qed
  with res mem show ?thesis by blast
qed

lemma get_operation_log_absent:
  assumes "matching_operation_logs s i n = []"
  shows "get_operation_log s i n =
    Inl (Exception (''Operation '' @ n @ '' does not exist in deployment '' @ str_int i @ ''.''))"
  using assms by (simp add: get_operation_log_def matching_operation_logs_def)

lemma get_operation_log_unique:
  assumes "matching_operation_logs s i n = [l]"
  shows "get_operation_log s i n = Inr l"
  using assms by (simp add: get_operation_log_def matching_operation_logs_def)

lemma get_operation_log_multiple:
  assumes "2 \<le> length (matching_operation_logs s i n)"
  shows "get_operation_log s i n = Inl MultipleResultsFound"
proof -
  from assms have "one (matching_operation_logs s i n) = Inl MultipleResultsFound"
    by (simp add: one_multiple_iff)
  then show ?thesis by (simp add: get_operation_log_def matching_operation_logs_def)
qed

text \<open>
  C5. On the stored history of \<^verbatim>\<open>example_session\<close> the latest-success query returns
  the service-level row of deployment 1 although deployment 2 holds a later
  service-level row for the same service: the second disjunct matches a service-level
  row against the maximum of any group of the service, here the node's. The rows are
  ordered by deployment id descending and the version is cut to 7 characters.
\<close>

theorem C5_returns_stale_service_row:
  "get_latest_success_service_component_version_query example_session =
     [(2, ''mock'', None, ''0c0d0e0''),
      (1, ''mock'', None, ''1a2b3c4''),
      (1, ''mock'', Some ''node'', ''9f8e7d6'')]"
  by code_simp

text \<open>
  C7, as stated, fails where several operation logs of one deployment carry the same
  operation name (deployment 3 plans \<^verbatim>\<open>mock_node_config\<close> twice): matching rows
  exist, and \<^verbatim>\<open>get_operation_log\<close> raises \<^verbatim>\<open>MultipleResultsFound\<close> instead of
  returning one.
\<close>

theorem C7_counterexample_duplicate_operation:
  "length (matching_operation_logs example_session 3 ''mock_node_config'') = 2 \<and>
   get_operation_log example_session 3 ''mock_node_config'' = Inl MultipleResultsFound"
  by code_simp

text \<open>
  C7, amended. \<^verbatim>\<open>get_deployment\<close> fails with the "does not exist" exception when no
  row has the id and returns the row when one has (ids are the primary key);
  \<^verbatim>\<open>get_last_deployment\<close> fails with "No deployments." on an empty table and otherwise
  returns a row of greatest id; \<^verbatim>\<open>get_operation_log\<close> fails with the "does not exist"
  exception when no row matches, returns the row when exactly one matches, and raises
  \<^verbatim>\<open>MultipleResultsFound\<close> when several match.
\<close>

theorem C7_queries_not_found_or_row:
  "((\<forall>d \<in> set (deployment_logs s). dl_id d \<noteq> Some i) \<longrightarrow>
      get_deployment s i =
        Inl (Exception (''Deployment id '' @ str_int i @ '' does not exist.''))) \<and>
   (distinct (map dl_id (deployment_logs s)) \<and> d \<in> set (deployment_logs s) \<and> dl_id d = Some i \<longrightarrow>
      get_deployment s i = Inr d) \<and>
   (deployment_logs s = [] \<longrightarrow> get_last_deployment s = Inl (Exception ''No deployments.'')) \<and>
   (deployment_logs s \<noteq> [] \<longrightarrow>
      (\<exists>d. d \<in> set (deployment_logs s) \<and> get_last_deployment s = Inr d \<and>
           (\<forall>d' \<in> set (deployment_logs s). dl_id d' \<le> dl_id d))) \<and>
   (matching_operation_logs s i n = [] \<longrightarrow>
      get_operation_log s i n =
        Inl (Exception (''Operation '' @ n @ '' does not exist in deployment ''
                        @ str_int i @ ''.''))) \<and>
   (matching_operation_logs s i n = [l] \<longrightarrow> get_operation_log s i n = Inr l) \<and>
   (2 \<le> length (matching_operation_logs s i n) \<longrightarrow>
      get_operation_log s i n = Inl MultipleResultsFound)"
  using get_deployment_absent[of s i] get_deployment_present[of s d i]
    get_last_deployment_empty[of s] get_last_deployment_nonempty[of s]
    get_operation_log_absent[of s i n] get_operation_log_unique[of s i n l]
    get_operation_log_multiple[of s i n]
  by blast

theorem C7_witness:
  "get_deployment example_session 7 = Inl (Exception ''Deployment id 7 does not exist.'') \<and>
   get_deployment example_session 2 = Inr (finished_deployment 2 [''mock_config'', ''mock_restart'']) \<and>
   get_last_deployment \<lparr>deployment_logs = [], service_component_logs = []\<rparr>
     = Inl (Exception ''No deployments.'') \<and>
   (\<exists>d. get_last_deployment example_session = Inr d \<and> dl_id d = Some 3) \<and>
   get_operation_log example_session 2 ''mock_init''
     = Inl (Exception ''Operation mock_init does not exist in deployment 2.'') \<and>
   get_operation_log example_session 2 ''mock_restart''
     = Inr ((planned_operation ''mock_restart'')
              \<lparr>ol_deployment_id := Some 2, ol_state := Op_SUCCESS\<rparr>) \<and>
   get_operation_log example_session 3 ''mock_node_config'' = Inl MultipleResultsFound"
proof -
  let ?s = example_session
  let ?d2 = "finished_deployment 2 [''mock_config'', ''mock_restart'']"
  let ?l = "(planned_operation ''mock_restart'')\<lparr>ol_deployment_id := Some 2, ol_state := Op_SUCCESS\<rparr>"
  have h1: "\<forall>d \<in> set (deployment_logs ?s). dl_id d \<noteq> Some 7" by code_simp
  have h2: "distinct (map dl_id (deployment_logs ?s)) \<and> ?d2 \<in> set (deployment_logs ?s) \<and>
            dl_id ?d2 = Some 2" by code_simp
  have h3: "deployment_logs \<lparr>deployment_logs = [], service_component_logs = []\<rparr> = []" by simp
  have h4: "deployment_logs ?s \<noteq> []" by code_simp
  have h5: "matching_operation_logs ?s 2 ''mock_init'' = []" by code_simp
  have h6: "matching_operation_logs ?s 2 ''mock_restart'' = [?l]" by code_simp
  have h7: "2 \<le> length (matching_operation_logs ?s 3 ''mock_node_config'')" by code_simp
  have s7: "str_int 7 = ''7''" and s2: "str_int 2 = ''2''" by code_simp+
  have ids: "set (map dl_id (deployment_logs ?s)) = {Some 1, Some 2, Some 3}" by code_simp
  from C7_queries_not_found_or_row[of ?s 7] h1 s7
  have c1: "get_deployment ?s 7 = Inl (Exception ''Deployment id 7 does not exist.'')" by simp
  from C7_queries_not_found_or_row[of ?s 2 ?d2] h2
  have c2: "get_deployment ?s 2 = Inr ?d2" by blast
  from C7_queries_not_found_or_row[of "\<lparr>deployment_logs = [], service_component_logs = []\<rparr>"] h3
  have c3: "get_last_deployment \<lparr>deployment_logs = [], service_component_logs = []\<rparr>
              = Inl (Exception ''No deployments.'')" by blast
  from C7_queries_not_found_or_row[of ?s] h4
  obtain d where d: "d \<in> set (deployment_logs ?s)" "get_last_deployment ?s = Inr d"
    "\<forall>d' \<in> set (deployment_logs ?s). dl_id d' \<le> dl_id d" by blast
  from d(1) have "dl_id d \<in> set (map dl_id (deployment_logs ?s))" by simp
  then have mem: "dl_id d \<in> {Some 1, Some 2, Some 3}" unfolding ids by simp
  from d(3) have "\<forall>x \<in> set (map dl_id (deployment_logs ?s)). x \<le> dl_id d" by simp
  then have "Some 3 \<le> dl_id d" unfolding ids by simp
  with mem have "dl_id d = Some 3" by auto
  with d(2) have c4: "\<exists>d. get_last_deployment ?s = Inr d \<and> dl_id d = Some 3" by blast
  from C7_queries_not_found_or_row[of ?s 2 _ "''mock_init''"] h5 s2
  have c5: "get_operation_log ?s 2 ''mock_init''
     = Inl (Exception ''Operation mock_init does not exist in deployment 2.'')" by simp
  from C7_queries_not_found_or_row[of ?s 2 _ "''mock_restart''" ?l] h6
  have c6: "get_operation_log ?s 2 ''mock_restart'' = Inr ?l" by blast
  from C7_queries_not_found_or_row[of ?s 3 _ "''mock_node_config''"] h7
  have c7: "get_operation_log ?s 3 ''mock_node_config'' = Inl MultipleResultsFound" by blast
  from c1 c2 c3 c4 c5 c6 c7 show ?thesis by blast
qed

section \<open>Properties of the plan dag command\<close>

lemma state_name_planned:
  "(DeploymentStateEnum_name st = ''PLANNED'') = (st = Dep_PLANNED)"
  by (cases st) auto

lemma get_planned_cases:
  "get_planned_deployment_log s = one_or_none (planned_logs s)"
  by (simp add: get_planned_deployment_log_def planned_logs_def state_name_planned)

lemma one_or_none_Inr:
  "one_or_none xs = Inr r \<Longrightarrow> (xs = [] \<and> r = None) \<or> (\<exists>x. xs = [x] \<and> r = Some x)"
  by (cases xs rule: one_or_none.cases) auto

lemma with_id_fields:
  "dl_id (with_id i d) = Some i" "dl_state (with_id i d) = dl_state d"
  by (simp_all add: with_id_def)

lemma replace_planned:
  assumes "distinct (map dl_id ds)" "Some i \<in> set (map dl_id ds)"
    and "\<forall>r \<in> set ds. dl_state r = Dep_PLANNED \<longrightarrow> dl_id r = Some i"
    and "dl_state N = Dep_PLANNED"
  shows "filter (\<lambda>d. dl_state d = Dep_PLANNED)
           (map (\<lambda>r. if dl_id r = Some i then N else r) ds) = [N]"
  using assms
proof (induction ds)
  case Nil
  then show ?case by simp
next
  case (Cons a ds)
  show ?case
  proof (cases "dl_id a = Some i")
    case True
    with Cons.prems(1) have notin: "\<forall>r \<in> set ds. dl_id r \<noteq> Some i"
      by (metis distinct.simps(2) imageI list.simps(9) set_map)
    then have same: "map (\<lambda>r. if dl_id r = Some i then N else r) ds = ds"
      by (simp add: map_idI)
    from notin Cons.prems(3) have "\<forall>r \<in> set ds. dl_state r \<noteq> Dep_PLANNED" by auto
    then have "filter (\<lambda>d. dl_state d = Dep_PLANNED) ds = []" by (simp add: filter_empty_conv)
    with True same Cons.prems(4) show ?thesis by simp
  next
    case False
    with Cons.prems have "dl_state a \<noteq> Dep_PLANNED" "distinct (map dl_id ds)"
      "Some i \<in> set (map dl_id ds)"
      "\<forall>r \<in> set ds. dl_state r = Dep_PLANNED \<longrightarrow> dl_id r = Some i" by auto
    with Cons.IH[OF this(2,3,4) Cons.prems(4)] False show ?thesis by simp
  qed
qed

lemma merge_ids_replace:
  "Some i \<in> set (map dl_id (deployment_logs s)) \<Longrightarrow> dl_id d = Some i \<Longrightarrow>
   map dl_id (deployment_logs (merge s d)) = map dl_id (deployment_logs s)"
  by (auto simp: merge_def Let_def with_id_fields)

lemma merge_planned_replace:
  assumes "distinct (map dl_id (deployment_logs s))"
    and "Some i \<in> set (map dl_id (deployment_logs s))"
    and "\<forall>r \<in> set (deployment_logs s). dl_state r = Dep_PLANNED \<longrightarrow> dl_id r = Some i"
    and "dl_state d = Dep_PLANNED" "dl_id d = Some i"
  shows "planned_logs (merge s d) = [with_id i d]"
proof -
  have "deployment_logs (merge s d) =
          map (\<lambda>r. if dl_id r = Some i then with_id i d else r) (deployment_logs s)"
    using assms(2,5) by (simp add: merge_def Let_def)
  then show ?thesis
    unfolding planned_logs_def
    using replace_planned[OF assms(1,2,3), of "with_id i d"] assms(4)
    by (simp add: with_id_fields)
qed

lemma merge_planned_append:
  assumes "planned_logs s = []" "dl_state d = Dep_PLANNED"
    and "dl_id d = None \<or>
         (\<exists>i. dl_id d = Some i \<and> Some i \<notin> set (map dl_id (deployment_logs s)))"
  shows "length (planned_logs (merge s d)) = 1"
  using assms by (auto simp: merge_def Let_def planned_logs_def with_id_fields)

lemma merge_planned_one:
  assumes dist: "distinct (map dl_id (deployment_logs s))"
    and none: "planned_logs s = []" and st: "dl_state d = Dep_PLANNED"
  shows "length (planned_logs (merge s d)) = 1"
proof (cases "\<exists>i. dl_id d = Some i \<and> Some i \<in> set (map dl_id (deployment_logs s))")
  case True
  then obtain i where i: "dl_id d = Some i" "Some i \<in> set (map dl_id (deployment_logs s))"
    by blast
  from none have "\<forall>r \<in> set (deployment_logs s). dl_state r = Dep_PLANNED \<longrightarrow> dl_id r = Some i"
    by (simp add: planned_logs_def filter_empty_conv)
  from merge_planned_replace[OF dist i(2) this st i(1)] show ?thesis by simp
next
  case False
  then have "dl_id d = None \<or>
             (\<exists>i. dl_id d = Some i \<and> Some i \<notin> set (map dl_id (deployment_logs s)))"
    by (cases "dl_id d") auto
  from merge_planned_append[OF none st this] show ?thesis .
qed

lemma dag_Inr_elim:
  assumes "dag from_dag ops vars vex srcs tgts fe ft rs s = Inr (s', out)"
  obtains rq plan planned where "from_dag rq = Inr plan"
    "get_planned_deployment_log s = Inr planned"
    "s' = merge s (case planned of Some p \<Rightarrow> plan\<lparr>dl_id := dl_id p\<rparr> | None \<Rightarrow> plan)"
    "vex" "listed_nodes srcs tgts \<subseteq> ops"
  using assms
  by (auto simp: dag_def Let_def listed_nodes_def split: if_splits sum.splits)

text \<open>
  C6. With \<^verbatim>\<open>--glob\<close> the command does not apply the filter as a GLOB: the flag's
  \<^verbatim>\<open>flag_value\<close> is the name of REGEX, so the body runs with the filter type REGEX,
  exactly as with \<^verbatim>\<open>--regex\<close>.
\<close>

theorem C6_glob_flag_gives_regex:
  "filter_type_param (Some glob_flag) = Inr (Some REGEX) \<and>
   filter_type_param (Some regex_flag) = Inr (Some REGEX) \<and>
   dag_command from_dag ops vars vex srcs tgts fe (Some glob_flag) rs session =
     dag from_dag ops vars vex srcs tgts fe (Some REGEX) rs session"
  by (simp add: dag_command_def filter_type_param_def FilterTypeEnum_getitem_def)

text \<open>
  C8. Planning with \<^verbatim>\<open>plan dag\<close> keeps at most one deployment in state PLANNED. On
  a store whose ids are set and distinct and that holds at most one PLANNED deployment,
  a run of the command that commits leaves exactly one PLANNED deployment; when a
  PLANNED deployment existed, no row is added (the ids of the rows are unchanged) and
  the PLANNED row is the new plan under the existing deployment's id.
\<close>

theorem C8_plan_dag_single_planned:
  assumes dist: "distinct (map dl_id (deployment_logs session))"
    and ids: "\<forall>d \<in> set (deployment_logs session). dl_id d \<noteq> None"
    and inv: "length (planned_logs session) \<le> 1"
    and contract: "\<forall>rq plan. from_dag rq = Inr plan \<longrightarrow> dl_state plan = Dep_PLANNED"
    and run: "dag from_dag ops vars vex srcs tgts fe ft rs session = Inr (session', out)"
  shows "length (planned_logs session') = 1 \<and>
         (\<forall>p. planned_logs session = [p] \<longrightarrow>
            map dl_id (deployment_logs session') = map dl_id (deployment_logs session) \<and>
            (\<exists>i rq plan. dl_id p = Some i \<and> from_dag rq = Inr plan \<and>
                          planned_logs session' = [with_id i plan]))"
proof -
  from run obtain rq plan planned where
    fd: "from_dag rq = Inr plan" and
    gp: "get_planned_deployment_log session = Inr planned" and
    s': "session' = merge session
           (case planned of Some p \<Rightarrow> plan\<lparr>dl_id := dl_id p\<rparr> | None \<Rightarrow> plan)"
    by (rule dag_Inr_elim)
  from contract fd have st: "dl_state plan = Dep_PLANNED" by blast
  from gp have "one_or_none (planned_logs session) = Inr planned"
    by (simp add: get_planned_cases)
  then consider (none) "planned_logs session = []" "planned = None"
    | (some) p where "planned_logs session = [p]" "planned = Some p"
    using one_or_none_Inr by blast
  then show ?thesis
  proof cases
    case none
    with s' have "session' = merge session plan" by simp
    with merge_planned_one[OF dist none(1) st] none(1) show ?thesis by simp
  next
    case some
    have pin: "p \<in> set (planned_logs session)" using some(1) by simp
    then have pmem: "p \<in> set (deployment_logs session)" and pst: "dl_state p = Dep_PLANNED"
      by (simp_all add: planned_logs_def)
    with ids obtain i where i: "dl_id p = Some i" by blast
    with pmem have imem: "Some i \<in> set (map dl_id (deployment_logs session))" by force
    have only: "\<forall>r \<in> set (deployment_logs session). dl_state r = Dep_PLANNED \<longrightarrow> dl_id r = Some i"
    proof (intro ballI impI)
      fix r assume "r \<in> set (deployment_logs session)" "dl_state r = Dep_PLANNED"
      then have "r \<in> set (planned_logs session)" by (simp add: planned_logs_def)
      with some(1) have "r = p" by simp
      with i show "dl_id r = Some i" by simp
    qed
    let ?d = "plan\<lparr>dl_id := Some i\<rparr>"
    from s' some(2) i have s'': "session' = merge session ?d" by simp
    have "planned_logs session' = [with_id i ?d]"
      unfolding s'' by (rule merge_planned_replace[OF dist imem only]) (simp_all add: st)
    moreover have "with_id i ?d = with_id i plan" by (simp add: with_id_def)
    moreover have "map dl_id (deployment_logs session') = map dl_id (deployment_logs session)"
      unfolding s'' by (rule merge_ids_replace[OF imem]) simp
    ultimately show ?thesis using some(1) i fd by auto
  qed
qed

theorem C8_witness:
  "\<exists>session' out.
     dag example_from_dag minimal_dag_operations ''tdp_vars'' True None (Some ''mock_init'')
         None None False example_session = Inr (session', out) \<and>
     length (planned_logs example_session) = 1 \<and>
     length (planned_logs session') = 1 \<and>
     map dl_id (deployment_logs session') = [Some 1, Some 2, Some 3] \<and>
     map dl_id (planned_logs session') = [Some 3] \<and>
     map deployment_type (planned_logs session') = [DAG]"
proof -
  let ?plan = "(planned_deployment DAG [''mock_install'', ''mock_config'', ''mock_start'',
                                        ''mock_init''])\<lparr>targets := Some [''mock_init'']\<rparr>"
  let ?p = "with_id 3 (planned_deployment OPERATIONS
              [''mock_node_config'', ''mock_node_start'', ''mock_node_config'',
               ''mock_node_restart''])"
  let ?s' = "merge example_session (?plan\<lparr>dl_id := Some 3\<rparr>)"
  let ?out = "[CreatingTo [''mock_init''], SuccessfullyCreated]"
  have run: "dag example_from_dag minimal_dag_operations ''tdp_vars'' True None
               (Some ''mock_init'') None None False example_session = Inr (?s', ?out)"
    by code_simp
  have dist: "distinct (map dl_id (deployment_logs example_session))" by code_simp
  have ids: "\<forall>d \<in> set (deployment_logs example_session). dl_id d \<noteq> None" by code_simp
  have inv: "length (planned_logs example_session) \<le> 1" by code_simp
  have contract: "\<forall>rq plan. example_from_dag rq = Inr plan \<longrightarrow> dl_state plan = Dep_PLANNED"
    by (auto simp: example_from_dag_def planned_deployment_def)
  have before: "planned_logs example_session = [?p]" by code_simp
  have idsb: "map dl_id (deployment_logs example_session) = [Some 1, Some 2, Some 3]"
    and idp: "dl_id ?p = Some 3"
    by code_simp+
  from C8_plan_dag_single_planned[OF dist ids inv contract run] before
  have one: "length (planned_logs ?s') = 1"
    and same: "map dl_id (deployment_logs ?s') = map dl_id (deployment_logs example_session)"
    and new: "\<exists>i rq plan. dl_id ?p = Some i \<and> example_from_dag rq = Inr plan \<and>
                          planned_logs ?s' = [with_id i plan]"
    by blast+
  from new idp obtain rq plan where plan: "example_from_dag rq = Inr plan"
    "planned_logs ?s' = [with_id 3 plan]" by auto
  from plan(1) have "deployment_type plan = DAG"
    by (auto simp: example_from_dag_def planned_deployment_def)
  with plan(2) have "map dl_id (planned_logs ?s') = [Some 3]"
    "map deployment_type (planned_logs ?s') = [DAG]"
    by (simp_all add: with_id_def)
  with run one same idsb before show ?thesis by auto
qed

text \<open>
  C9, as stated, fails when the variables directory is missing: the command checks
  \<^verbatim>\<open>vars.exists()\<close> first, so an invocation that lists an unknown node is rejected
  with the "does not exist" error of the variables path, not with the error that names
  the invalid nodes.
\<close>

theorem C9_counterexample_vars_missing:
  "''nope'' \<in> listed_nodes (Some ''nope'') None \<and>
   ''nope'' \<notin> minimal_dag_operations \<and>
   dag example_from_dag minimal_dag_operations ''tdp_vars'' False (Some ''nope'') None
       None None False example_session = Inl (BadParameter (DoesNotExist ''tdp_vars''))"
  by code_simp

text \<open>
  C9, amended. If a listed source or target is not a node of the DAG, the command fails
  with a \<^verbatim>\<open>BadParameter\<close> error whatever \<^verbatim>\<open>from_dag\<close> and the store are: no plan
  is built and nothing is persisted. When the variables directory exists, the error is
  the one naming the invalid nodes, that is the listed names that the DAG lacks; when
  it does not exist, the error is the one reporting the missing variables directory.
\<close>

theorem C9_unknown_node_aborts:
  assumes "n \<in> listed_nodes srcs tgts" and "n \<notin> dag_operations"
  shows "(\<exists>b. dag from_dag dag_operations vars vars_exists srcs tgts fe ft rs session
               = Inl (BadParameter b)) \<and>
         (vars_exists \<longrightarrow>
            dag from_dag dag_operations vars vars_exists srcs tgts fe ft rs session
              = Inl (BadParameter (NotValidNodes (listed_nodes srcs tgts - dag_operations)))) \<and>
         (\<not> vars_exists \<longrightarrow>
            dag from_dag dag_operations vars vars_exists srcs tgts fe ft rs session
              = Inl (BadParameter (DoesNotExist vars)))"
  using assms by (auto simp: dag_def Let_def listed_nodes_def)

theorem C9_witness:
  "dag example_from_dag minimal_dag_operations ''tdp_vars'' True
       (Some ''mock_install,nope'') (Some ''mock_init'') None None False example_session
     = Inl (BadParameter (NotValidNodes {''nope''})) \<and>
   dag example_from_dag minimal_dag_operations ''tdp_vars'' False
       (Some ''mock_install,nope'') (Some ''mock_init'') None None False example_session
     = Inl (BadParameter (DoesNotExist ''tdp_vars''))"
proof -
  have a: "''nope'' \<in> listed_nodes (Some ''mock_install,nope'') (Some ''mock_init'')"
    by code_simp
  have b: "''nope'' \<notin> minimal_dag_operations" by code_simp
  have c: "listed_nodes (Some ''mock_install,nope'') (Some ''mock_init'')
             - minimal_dag_operations = {''nope''}" by code_simp
  from C9_unknown_node_aborts[OF a b, of example_from_dag "''tdp_vars''" True
        None None False example_session]
  have t: "dag example_from_dag minimal_dag_operations ''tdp_vars'' True
       (Some ''mock_install,nope'') (Some ''mock_init'') None None False example_session
     = Inl (BadParameter (NotValidNodes {''nope''}))" unfolding c by simp
  from C9_unknown_node_aborts[OF a b, of example_from_dag "''tdp_vars''" False
        None None False example_session]
  have f: "dag example_from_dag minimal_dag_operations ''tdp_vars'' False
       (Some ''mock_install,nope'') (Some ''mock_init'') None None False example_session
     = Inl (BadParameter (DoesNotExist ''tdp_vars''))" by simp
  from t f show ?thesis by simp
qed

section \<open>Properties of the deployment runner and of resumed plans\<close>

lemma operation_state_of_cases:
  "operation_state_of s \<noteq> Op_FAILURE \<Longrightarrow> operation_state_of s = Op_SUCCESS"
  by (cases s) auto

lemma run_operation_unfold:
  "run_operation ex gh did op l st =
     (case (if noop op then ((SUCCESS, []), executor_state st) else ex (executor_state st) op) of
        (res, es) \<Rightarrow>
          (case emit_component_version gh did op (operation_state_of (fst res))
                  (st\<lparr>executor_state := es, clock := clock st + 2\<rparr>) of
             (cv, st') \<Rightarrow>
               ((l\<lparr>ol_state := operation_state_of (fst res), ol_start_time := Some (clock st),
                    logs := snd res, ol_end_time := Some (clock st + 1)\<rparr>, cv), st')))"
  by (simp add: run_operation_def Let_def split: prod.splits)

lemma run_operation_elim:
  assumes "run_operation ex gh did op l st = ((l', cv), st')"
  obtains res es where
    "(if noop op then ((SUCCESS, []), executor_state st) else ex (executor_state st) op) = (res, es)"
    "emit_component_version gh did op (operation_state_of (fst res))
        (st\<lparr>executor_state := es, clock := clock st + 2\<rparr>) = (cv, st')"
    "l' = l\<lparr>ol_state := operation_state_of (fst res), ol_start_time := Some (clock st),
            logs := snd res, ol_end_time := Some (clock st + 1)\<rparr>"
proof -
  obtain res es where a: "(if noop op then ((SUCCESS, []), executor_state st) else ex (executor_state st) op) = (res, es)"
    by (meson surj_pair)
  obtain cv' st'' where b: "emit_component_version gh did op (operation_state_of (fst res))
        (st\<lparr>executor_state := es, clock := clock st + 2\<rparr>) = (cv', st'')"
    by (meson surj_pair)
  from assms a b have "cv' = cv" "st'' = st'" "l' = l\<lparr>ol_state := operation_state_of (fst res), ol_start_time := Some (clock st),
            logs := snd res, ol_end_time := Some (clock st + 1)\<rparr>"
    by (simp_all add: run_operation_unfold)
  with a b that show thesis by blast
qed


lemma run_operation_state:
  assumes "run_operation ex gh did op l st = ((l', cv), st')"
  shows "ol_state l' = Op_SUCCESS \<or> ol_state l' = Op_FAILURE"
    and "operation l' = operation l"
    and "ol_state l' = (if noop op then Op_SUCCESS
                        else operation_state_of (fst (fst (ex (executor_state st) op))))"
proof -
  from assms obtain res es where
    a: "(if noop op then ((SUCCESS, []), executor_state st) else ex (executor_state st) op) = (res, es)"
    and l': "l' = l\<lparr>ol_state := operation_state_of (fst res), ol_start_time := Some (clock st),
            logs := snd res, ol_end_time := Some (clock st + 1)\<rparr>"
    by (rule run_operation_elim)
  from l' show "ol_state l' = Op_SUCCESS \<or> ol_state l' = Op_FAILURE"
    by (cases "fst res") simp_all
  from l' show "operation l' = operation l" by simp
  from a l' show "ol_state l' = (if noop op then Op_SUCCESS
                        else operation_state_of (fst (fst (ex (executor_state st) op))))"
    by (cases "noop op") auto
qed

lemma emit_effect:
  assumes em: "emit_component_version gh did op Op_SUCCESS st0 = (cv, st')"
  shows "(p \<in> emitted st') =
           (p \<in> emitted st0 \<or> (key_of op = p \<and> is_start_or_restart op \<and> \<not> is_config op
                                  \<and> p \<in> dom (last_configured st0)))"
    and "(p \<in> dom (last_configured st')) =
           (p \<in> dom (last_configured st0) \<or> (key_of op = p \<and> is_config op))"
    and "length (emitted_for p (case cv of None \<Rightarrow> [] | Some c \<Rightarrow> [c])) =
           (if key_of op = p \<and> is_start_or_restart op \<and> \<not> is_config op
                \<and> p \<in> dom (last_configured st0) \<and> p \<notin> emitted st0 then 1 else 0)"
proof -
  consider (c) "is_config op"
    | (s) "\<not> is_config op" "is_start_or_restart op" "last_configured st0 (key_of op) = None"
    | (e) h where "\<not> is_config op" "is_start_or_restart op" "last_configured st0 (key_of op) = Some h"
          "key_of op \<in> emitted st0"
    | (n) h where "\<not> is_config op" "is_start_or_restart op" "last_configured st0 (key_of op) = Some h"
          "key_of op \<notin> emitted st0"
    | (o) "\<not> is_config op" "\<not> is_start_or_restart op"
    by (cases "last_configured st0 (key_of op)") auto
  then have "((p \<in> emitted st') =
           (p \<in> emitted st0 \<or> (key_of op = p \<and> is_start_or_restart op \<and> \<not> is_config op
                                  \<and> p \<in> dom (last_configured st0)))) \<and>
    ((p \<in> dom (last_configured st')) =
           (p \<in> dom (last_configured st0) \<or> (key_of op = p \<and> is_config op))) \<and>
    (length (emitted_for p (case cv of None \<Rightarrow> [] | Some c \<Rightarrow> [c])) =
           (if key_of op = p \<and> is_start_or_restart op \<and> \<not> is_config op
                \<and> p \<in> dom (last_configured st0) \<and> p \<notin> emitted st0 then 1 else 0))"
  proof cases
    case c
    with em have "cv = None" "st' = st0\<lparr>last_configured := (last_configured st0)(key_of op \<mapsto> gh (key_of op))\<rparr>"
      by (simp_all add: emit_component_version_def Let_def)
    with c show ?thesis by (auto simp: emitted_for_def)
  next
    case s
    with em have "cv = None" "st' = st0"
      by (simp_all add: emit_component_version_def Let_def)
    with s show ?thesis by (auto simp: emitted_for_def)
  next
    case e
    with em have "cv = None" "st' = st0"
      by (simp_all add: emit_component_version_def Let_def)
    with e show ?thesis by (auto simp: emitted_for_def)
  next
    case n
    with em have "cv = Some \<lparr>cv_deployment_id = did, cv_service = fst (key_of op),
                               cv_component = snd (key_of op), cv_version = h\<rparr>"
      "st' = st0\<lparr>emitted := insert (key_of op) (emitted st0)\<rparr>"
      by (simp_all add: emit_component_version_def Let_def)
    with n show ?thesis by (auto simp: emitted_for_def)
  next
    case o
    with em have "cv = None" "st' = st0"
      by (simp_all add: emit_component_version_def Let_def)
    with o show ?thesis by (auto simp: emitted_for_def)
  qed
  then show "(p \<in> emitted st') =
           (p \<in> emitted st0 \<or> (key_of op = p \<and> is_start_or_restart op \<and> \<not> is_config op
                                  \<and> p \<in> dom (last_configured st0)))"
    and "(p \<in> dom (last_configured st')) =
           (p \<in> dom (last_configured st0) \<or> (key_of op = p \<and> is_config op))"
    and "length (emitted_for p (case cv of None \<Rightarrow> [] | Some c \<Rightarrow> [c])) =
           (if key_of op = p \<and> is_start_or_restart op \<and> \<not> is_config op
                \<and> p \<in> dom (last_configured st0) \<and> p \<notin> emitted st0 then 1 else 0)"
    by blast+
qed

lemma run_operation_effect:
  assumes "run_operation ex gh did op l st = ((l', cv), st')"
      and "ol_state l' \<noteq> Op_FAILURE"
  shows "(p \<in> emitted st') =
           (p \<in> emitted st \<or> (key_of op = p \<and> is_start_or_restart op \<and> \<not> is_config op
                                  \<and> p \<in> dom (last_configured st)))"
    and "(p \<in> dom (last_configured st')) =
           (p \<in> dom (last_configured st) \<or> (key_of op = p \<and> is_config op))"
    and "length (emitted_for p (case cv of None \<Rightarrow> [] | Some c \<Rightarrow> [c])) =
           (if key_of op = p \<and> is_start_or_restart op \<and> \<not> is_config op
                \<and> p \<in> dom (last_configured st) \<and> p \<notin> emitted st then 1 else 0)"
proof -
  from assms(1) obtain res es where
    em: "emit_component_version gh did op (operation_state_of (fst res))
        (st\<lparr>executor_state := es, clock := clock st + 2\<rparr>) = (cv, st')"
    and l': "l' = l\<lparr>ol_state := operation_state_of (fst res), ol_start_time := Some (clock st),
            logs := snd res, ol_end_time := Some (clock st + 1)\<rparr>"
    by (rule run_operation_elim)
  from l' assms(2) have "operation_state_of (fst res) = Op_SUCCESS"
    using operation_state_of_cases by simp
  with em have em': "emit_component_version gh did op Op_SUCCESS
        (st\<lparr>executor_state := es, clock := clock st + 2\<rparr>) = (cv, st')" by simp
  from emit_effect[OF em', of p]
  show "(p \<in> emitted st') =
           (p \<in> emitted st \<or> (key_of op = p \<and> is_start_or_restart op \<and> \<not> is_config op
                                  \<and> p \<in> dom (last_configured st)))"
    and "(p \<in> dom (last_configured st')) =
           (p \<in> dom (last_configured st) \<or> (key_of op = p \<and> is_config op))"
    and "length (emitted_for p (case cv of None \<Rightarrow> [] | Some c \<Rightarrow> [c])) =
           (if key_of op = p \<and> is_start_or_restart op \<and> \<not> is_config op
                \<and> p \<in> dom (last_configured st) \<and> p \<notin> emitted st then 1 else 0)"
    by simp_all
qed

lemma config_not_start: "is_config op \<Longrightarrow> \<not> is_start_or_restart op"
  by (auto simp: is_config_def is_start_or_restart_def)

lemma run_operations_Cons_elim:
  assumes "run_operations C ex gh did (l # ls) st = Inr (ys, rest, out, st')"
  obtains (fail) op l' cv where "C (operation l) = Some op"
      "run_operation ex gh did op l st = ((l', cv), st')" "ol_state l' = Op_FAILURE"
      "ys = [(l', cv)]" "rest = ls" "out = Dep_FAILURE"
    | (step) op l' cv st1 ys' where "C (operation l) = Some op"
      "run_operation ex gh did op l st = ((l', cv), st1)" "ol_state l' \<noteq> Op_FAILURE"
      "run_operations C ex gh did ls st1 = Inr (ys', rest, out, st')" "ys = (l', cv) # ys'"
proof (cases "C (operation l)")
  case None
  with assms show thesis by simp
next
  case (Some op)
  obtain l' cv st1 where ro: "run_operation ex gh did op l st = ((l', cv), st1)"
    by (metis surj_pair)
  show thesis
  proof (cases "ol_state l' = Op_FAILURE")
    case True
    with assms Some ro have "ys = [(l', cv)]" "rest = ls" "out = Dep_FAILURE" "st1 = st'" by simp_all
    with Some ro True fail show thesis by blast
  next
    case False
    with assms Some ro obtain ys' where
      "run_operations C ex gh did ls st1 = Inr (ys', rest, out, st')" "ys = (l', cv) # ys'"
      by (auto split: sum.splits)
    with Some ro False step show thesis by blast
  qed
qed

lemma map_filter_snd_Cons:
  "List.map_filter snd ((l, cv) # ys) = (case cv of None \<Rightarrow> [] | Some c \<Rightarrow> [c]) @ List.map_filter snd ys"
  by (cases cv) (simp_all add: List.map_filter_simps)

lemma emitted_for_append: "emitted_for p (xs @ ys) = emitted_for p xs @ emitted_for p ys"
  by (simp add: emitted_for_def)

lemma emission_count:
  assumes "run_operations C ex gh did ls st = Inr (ys, rest, Dep_SUCCESS, st')"
  shows "length (emitted_for p (List.map_filter snd ys)) =
     (if p \<notin> emitted st \<and> config_then_start C p (p \<in> dom (last_configured st)) ls then 1 else 0)"
  using assms
proof (induction ls arbitrary: st ys)
  case Nil
  then show ?case by (simp add: List.map_filter_simps emitted_for_def)
next
  case (Cons l ls)
  from Cons.prems obtain op l' cv st1 ys' where
    op: "C (operation l) = Some op" and
    step: "run_operation ex gh did op l st = ((l', cv), st1)" and
    ok: "ol_state l' \<noteq> Op_FAILURE" and
    rest: "run_operations C ex gh did ls st1 = Inr (ys', rest, Dep_SUCCESS, st')" and
    ys: "ys = (l', cv) # ys'"
    by (cases rule: run_operations_Cons_elim) auto
  note eff = run_operation_effect[OF step ok, of p]
  note IH = Cons.IH[OF rest]
  have cfg: "config_on C p l = (key_of op = p \<and> is_config op)"
    and sta: "start_on C p l = (key_of op = p \<and> is_start_or_restart op)"
    using op by (simp_all add: config_on_def start_on_def)
  let ?first = "length (emitted_for p (case cv of None \<Rightarrow> [] | Some c \<Rightarrow> [c]))"
  let ?B = "p \<in> dom (last_configured st)"
  have len: "length (emitted_for p (List.map_filter snd ys)) =
             ?first + length (emitted_for p (List.map_filter snd ys'))"
    unfolding ys map_filter_snd_Cons emitted_for_append by simp
  consider (c) "key_of op = p" "is_config op"
    | (s) "key_of op = p" "is_start_or_restart op" "\<not> is_config op"
    | (o) "\<not> (key_of op = p \<and> is_config op)" "\<not> (key_of op = p \<and> is_start_or_restart op)"
    by blast
  then show ?case
  proof cases
    case c
    with config_not_start[of op] have ns: "\<not> is_start_or_restart op" by simp
    from c cfg have "config_on C p l" by blast
    then have cts: "config_then_start C p ?B (l # ls) = config_then_start C p True ls"
      by simp
    from eff c ns have e1: "(p \<in> emitted st1) = (p \<in> emitted st)"
      and e2: "p \<in> dom (last_configured st1)" and e3: "?first = 0" by simp_all
    from e2 have e2': "(p \<in> dom (last_configured st1)) = True" by simp
    show ?thesis unfolding len IH e1 e2' e3 cts by simp
  next
    case s
    from s cfg sta have "\<not> config_on C p l" "start_on C p l" by blast+
    then have cts: "config_then_start C p ?B (l # ls) =
        (if ?B then True else config_then_start C p ?B ls)"
      by simp
    from eff s have e1: "(p \<in> emitted st1) = (p \<in> emitted st \<or> ?B)"
      and e2: "(p \<in> dom (last_configured st1)) = ?B"
      and e3: "?first = (if ?B \<and> p \<notin> emitted st then 1 else 0)" by simp_all
    show ?thesis unfolding len IH e1 e2 e3 cts by simp
  next
    case o
    from o cfg sta have "\<not> config_on C p l" "\<not> start_on C p l" by blast+
    then have cts: "config_then_start C p ?B (l # ls) = config_then_start C p ?B ls"
      by simp
    from eff o have e1: "(p \<in> emitted st1) = (p \<in> emitted st)"
      and e2: "(p \<in> dom (last_configured st1)) = ?B"
      and e3: "?first = 0" by auto
    show ?thesis unfolding len IH e1 e2 e3 cts by simp
  qed
qed

lemma config_on_not_start_on: "config_on C p l \<Longrightarrow> \<not> start_on C p l"
  by (auto simp: config_on_def start_on_def config_not_start split: option.splits)

lemma config_then_start_after_config:
  "start_on C p s \<Longrightarrow> config_then_start C p True (ys @ s # zs)"
  by (induction ys) (auto dest: config_on_not_start_on)

lemma config_then_start_decomposed:
  "config_on C p c \<Longrightarrow> start_on C p s \<Longrightarrow> config_then_start C p b (xs @ c # ys @ s # zs)"
proof (induction xs arbitrary: b)
  case Nil
  then show ?case by (simp add: config_then_start_after_config)
next
  case (Cons x xs)
  then show ?case by simp
qed



lemma run_operations_success_rest:
  "run_operations C ex gh did ls st = Inr (ys, rest, Dep_SUCCESS, st') \<Longrightarrow>
   rest = [] \<and> length ys = length ls"
proof (induction ls arbitrary: st ys)
  case Nil
  then show ?case by simp
next
  case (Cons l ls)
  from Cons.prems show ?case
  proof (cases rule: run_operations_Cons_elim)
    case (fail op l' cv)
    then show ?thesis by simp
  next
    case (step op l' cv st1 ys')
    with Cons.IH show ?thesis by simp
  qed
qed

lemma run_operations_append:
  assumes "run_operations C ex gh did pre st = Inr (ys, rest, Dep_SUCCESS, st1)"
  shows "run_operations C ex gh did (pre @ suf) st =
     (case run_operations C ex gh did suf st1 of
        Inl e \<Rightarrow> Inl e
      | Inr (ys', rest', out, st2) \<Rightarrow> Inr (ys @ ys', rest', out, st2))"
  using assms
proof (induction pre arbitrary: st ys)
  case Nil
  then show ?case by (simp split: sum.splits)
next
  case (Cons l pre)
  from Cons.prems show ?case
  proof (cases rule: run_operations_Cons_elim)
    case (fail op l' cv)
    then show ?thesis by simp
  next
    case (step op l' cv st')
    from Cons.IH[OF step(4)] step(1,2,3,5) show ?thesis
      by (simp split: sum.splits)
  qed
qed



lemma dropWhile_first_failure:
  "dropWhile (\<lambda>l. ol_state l \<noteq> Op_FAILURE) ls = drop (index_of_first_failure ls) ls"
  by (induction ls) auto

lemma index_of_first_failure_found:
  "\<exists>l \<in> set ls. ol_state l = Op_FAILURE \<Longrightarrow>
   index_of_first_failure ls < length ls \<and>
   ol_state (ls ! index_of_first_failure ls) = Op_FAILURE"
  by (induction ls) auto

lemma index_of_first_failure_first:
  "j < index_of_first_failure ls \<Longrightarrow> ol_state (ls ! j) \<noteq> Op_FAILURE"
proof (induction ls arbitrary: j)
  case Nil
  then show ?case by simp
next
  case (Cons l ls)
  then show ?case by (cases j) (auto split: if_splits)
qed

lemma run_unfold:
  assumes "operations log \<noteq> []"
    and "run_operations C ex gh (dl_id log) (operations log)
           (initial_state stale es (now + 1)) = Inr (ys, rest, outcome, st)"
  shows "run C ex gh stale es now log =
     Inr \<lparr>yielded = ys,
          deployment_log =
            log\<lparr>dl_state := outcome, dl_start_time := Some now,
                dl_end_time := Some (clock st),
                operations := map fst ys @ rest,
                component_version := component_version log @ List.map_filter snd ys\<rparr>,
          runner = st\<lparr>clock := clock st + 1\<rparr>\<rparr>"
  using assms by (simp add: run_def)

lemma run_Inr_elim:
  assumes "run C ex gh stale es now log = Inr r" and "operations log \<noteq> []"
  obtains ys rest outcome st where
    "run_operations C ex gh (dl_id log) (operations log)
       (initial_state stale es (now + 1)) = Inr (ys, rest, outcome, st)"
    "dl_state (deployment_log r) = outcome"
    "component_version (deployment_log r) = component_version log @ List.map_filter snd ys"
    "operations (deployment_log r) = map fst ys @ rest"
    "yielded r = ys"
proof (cases "run_operations C ex gh (dl_id log) (operations log)
                (initial_state stale es (now + 1))")
  case (Inl e)
  with assms show thesis by (simp add: run_def)
next
  case (Inr t)
  obtain ys rest outcome st where t: "t = (ys, rest, outcome, st)" by (metis prod_cases4)
  from run_unfold[OF assms(2) Inr[unfolded t]] assms(1)
  have "r = \<lparr>yielded = ys,
          deployment_log =
            log\<lparr>dl_state := outcome, dl_start_time := Some now,
                dl_end_time := Some (clock st),
                operations := map fst ys @ rest,
                component_version := component_version log @ List.map_filter snd ys\<rparr>,
          runner = st\<lparr>clock := clock st + 1\<rparr>\<rparr>" by simp
  then have "dl_state (deployment_log r) = outcome"
    "component_version (deployment_log r) = component_version log @ List.map_filter snd ys"
    "operations (deployment_log r) = map fst ys @ rest"
    "yielded r = ys" by simp_all
  with Inr t that show thesis by blast
qed

lemma emit_executor_state:
  "emit_component_version gh did op res st = (cv, st') \<Longrightarrow> executor_state st' = executor_state st"
  by (auto simp: emit_component_version_def Let_def split: if_splits option.splits)

lemma emit_not_success:
  "res \<noteq> Op_SUCCESS \<Longrightarrow> emit_component_version gh did op res st = (None, st)"
  by (simp add: emit_component_version_def Let_def)

lemma run_operation_executor_state:
  assumes "run_operation ex gh did op l st = ((l', cv), st')"
  shows "executor_state st' =
           (if noop op then executor_state st else snd (ex (executor_state st) op))"
proof -
  from assms obtain res es where
    a: "(if noop op then ((SUCCESS, []), executor_state st) else ex (executor_state st) op) = (res, es)"
    and em: "emit_component_version gh did op (operation_state_of (fst res))
        (st\<lparr>executor_state := es, clock := clock st + 2\<rparr>) = (cv, st')"
    by (rule run_operation_elim)
  from emit_executor_state[OF em] have "executor_state st' = es" by simp
  with a show ?thesis by (cases "noop op") auto
qed

lemma run_operation_failure:
  assumes "run_operation ex gh did op l st = ((l', cv), st')" and "ol_state l' = Op_FAILURE"
  shows "cv = None"
proof -
  from assms(1) obtain res es where
    em: "emit_component_version gh did op (operation_state_of (fst res))
        (st\<lparr>executor_state := es, clock := clock st + 2\<rparr>) = (cv, st')"
    and l': "l' = l\<lparr>ol_state := operation_state_of (fst res), ol_start_time := Some (clock st),
            logs := snd res, ol_end_time := Some (clock st + 1)\<rparr>"
    by (rule run_operation_elim)
  from l' assms(2) have "operation_state_of (fst res) \<noteq> Op_SUCCESS" by simp
  from emit_not_success[OF this, of gh did op "st\<lparr>executor_state := es, clock := clock st + 2\<rparr>"] em
  show ?thesis by simp
qed

lemma run_operations_fail_state:
  assumes "C (operation l) = Some op" "\<not> noop op"
    "fst (fst (ex (executor_state st) op)) = FAILURE"
  shows "\<exists>l' cv st'. run_operations C ex gh did (l # post) st = Inr ([(l', cv)], post, Dep_FAILURE, st')
           \<and> ol_state l' = Op_FAILURE \<and> operation l' = operation l
           \<and> executor_state st' = snd (ex (executor_state st) op)"
proof -
  obtain l' cv st' where ro: "run_operation ex gh did op l st = ((l', cv), st')"
    by (metis surj_pair)
  from run_operation_state(2,3)[OF ro] assms(2,3)
  have "ol_state l' = Op_FAILURE" "operation l' = operation l" by simp_all
  moreover from run_operation_executor_state[OF ro] assms(2)
  have "executor_state st' = snd (ex (executor_state st) op)" by simp
  ultimately show ?thesis using ro assms(1) by simp
qed

lemma run_operations_outcome:
  "run_operations C ex gh did ls st = Inr (ys, rest, out, st') \<Longrightarrow>
   out = Dep_SUCCESS \<or> out = Dep_FAILURE"
proof (induction ls arbitrary: st ys)
  case Nil
  then show ?case by simp
next
  case (Cons l ls)
  from Cons.prems show ?case
  proof (cases rule: run_operations_Cons_elim)
    case (fail op l' cv)
    then show ?thesis by simp
  next
    case (step op l' cv st1 ys')
    with Cons.IH show ?thesis by blast
  qed
qed

lemma run_operations_failure_decomp:
  assumes "run_operations C ex gh did ls st = Inr (ys, rest, Dep_FAILURE, st')"
  shows "\<exists>pre l l' ys0 st1. ls = pre @ l # rest \<and>
           run_operations C ex gh did pre st = Inr (ys0, [], Dep_SUCCESS, st1) \<and>
           ys = ys0 @ [(l', None)] \<and> ol_state l' = Op_FAILURE"
  using assms
proof (induction ls arbitrary: st ys)
  case Nil
  then show ?case by simp
next
  case (Cons l ls)
  from Cons.prems show ?case
  proof (cases rule: run_operations_Cons_elim)
    case (fail op l' cv)
    from run_operation_failure[OF fail(2,3)] have "cv = None" .
    with fail have "l # ls = [] @ l # rest \<and>
           run_operations C ex gh did [] st = Inr ([], [], Dep_SUCCESS, st) \<and>
           ys = [] @ [(l', None)] \<and> ol_state l' = Op_FAILURE" by simp
    then show ?thesis by blast
  next
    case (step op l' cv st1 ys')
    from Cons.IH[OF step(4)] obtain pre m m' ys0 st2 where
      d: "ls = pre @ m # rest"
         "run_operations C ex gh did pre st1 = Inr (ys0, [], Dep_SUCCESS, st2)"
         "ys' = ys0 @ [(m', None)]" "ol_state m' = Op_FAILURE" by blast
    from step(1,2,3) d(2)
    have "run_operations C ex gh did (l # pre) st = Inr ((l', cv) # ys0, [], Dep_SUCCESS, st2)"
      by simp
    with d step(5) have "l # ls = (l # pre) @ m # rest \<and>
           run_operations C ex gh did (l # pre) st = Inr ((l', cv) # ys0, [], Dep_SUCCESS, st2) \<and>
           ys = ((l', cv) # ys0) @ [(m', None)] \<and> ol_state m' = Op_FAILURE" by simp
    then show ?thesis by blast
  qed
qed

lemma map_filter_snd_failed:
  "List.map_filter snd (ys0 @ [(l', None)]) = List.map_filter snd ys0"
  by (simp add: List.map_filter_def)

lemma take_past_prefix:
  "length A < n \<Longrightarrow> take n (A @ s # zs) = A @ s # take (n - Suc (length A)) zs"
proof -
  assume a: "length A < n"
  then obtain k where k: "n - length A = Suc k" by (cases "n - length A") auto
  then have "n - Suc (length A) = k" by arith
  with a k show ?thesis by simp
qed

lemma emission_count_any:
  assumes ro: "run_operations C ex gh did ls st = Inr (ys, rest, out, st')"
  shows "\<exists>pre suf. ls = pre @ suf \<and>
           (out = Dep_SUCCESS \<longrightarrow> suf = []) \<and>
           length pre = length (filter (\<lambda>y. ol_state (fst y) \<noteq> Op_FAILURE) ys) \<and>
           (length ys = length pre \<or> length ys = Suc (length pre)) \<and>
           (\<forall>j < length ys. ol_state (fst (ys ! j)) \<noteq> Op_FAILURE \<longrightarrow> j < length pre) \<and>
           length (emitted_for p (List.map_filter snd ys)) =
             (if p \<notin> emitted st \<and> config_then_start C p (p \<in> dom (last_configured st)) pre
              then 1 else 0)"
proof -
  have no_fail: "filter (\<lambda>y. ol_state (fst y) \<noteq> Op_FAILURE) zs = zs \<and>
                 (\<forall>j < length zs. ol_state (fst (zs ! j)) \<noteq> Op_FAILURE)"
    if "run_operations C ex gh did ms s0 = Inr (zs, r0, Dep_SUCCESS, s1)" for ms s0 zs r0 s1
    using that
  proof (induction ms arbitrary: s0 zs)
    case Nil
    then show ?case by simp
  next
    case (Cons m ms)
    from Cons.prems show ?case
    proof (cases rule: run_operations_Cons_elim)
      case (fail op l' cv)
      then show ?thesis by simp
    next
      case (step op l' cv st1 ys')
      from Cons.IH[OF step(4)] step(3,5) show ?thesis
        by (auto simp: nth_Cons split: nat.splits)
    qed
  qed
  from run_operations_outcome[OF ro] consider (s) "out = Dep_SUCCESS" | (f) "out = Dep_FAILURE"
    by blast
  then show ?thesis
  proof cases
    case s
    with ro have ro': "run_operations C ex gh did ls st = Inr (ys, rest, Dep_SUCCESS, st')" by simp
    from run_operations_success_rest[OF ro'] have len: "length ys = length ls" by simp
    from no_fail[OF ro'] len emission_count[OF ro', of p]
    have "ls = ls @ [] \<and> (out = Dep_SUCCESS \<longrightarrow> [] = ([]::OperationLog list)) \<and>
           length ls = length (filter (\<lambda>y. ol_state (fst y) \<noteq> Op_FAILURE) ys) \<and>
           (length ys = length ls \<or> length ys = Suc (length ls)) \<and>
           (\<forall>j < length ys. ol_state (fst (ys ! j)) \<noteq> Op_FAILURE \<longrightarrow> j < length ls) \<and>
           length (emitted_for p (List.map_filter snd ys)) =
             (if p \<notin> emitted st \<and> config_then_start C p (p \<in> dom (last_configured st)) ls
              then 1 else 0)" by simp
    then show ?thesis by blast
  next
    case f
    with ro have "run_operations C ex gh did ls st = Inr (ys, rest, Dep_FAILURE, st')" by simp
    from run_operations_failure_decomp[OF this] obtain pre l l' ys0 st1 where
      d: "ls = pre @ l # rest"
         "run_operations C ex gh did pre st = Inr (ys0, [], Dep_SUCCESS, st1)"
         "ys = ys0 @ [(l', None)]" "ol_state l' = Op_FAILURE" by blast
    from run_operations_success_rest[OF d(2)] have len: "length ys0 = length pre" by simp
    from no_fail[OF d(2)] have nf: "filter (\<lambda>y. ol_state (fst y) \<noteq> Op_FAILURE) ys0 = ys0"
      "\<forall>j < length ys0. ol_state (fst (ys0 ! j)) \<noteq> Op_FAILURE" by simp_all
    have idx: "\<forall>j < length ys. ol_state (fst (ys ! j)) \<noteq> Op_FAILURE \<longrightarrow> j < length pre"
    proof (intro allI impI)
      fix j assume j: "j < length ys" "ol_state (fst (ys ! j)) \<noteq> Op_FAILURE"
      show "j < length pre"
      proof (rule ccontr)
        assume "\<not> j < length pre"
        with j(1) d(3) len have "j = length ys0" by simp
        with d(3,4) j(2) show False by (simp add: nth_append)
      qed
    qed
    from emission_count[OF d(2), of p] f d(1,3,4) len nf(1) idx
    have "ls = pre @ (l # rest) \<and> (out = Dep_SUCCESS \<longrightarrow> l # rest = []) \<and>
           length pre = length (filter (\<lambda>y. ol_state (fst y) \<noteq> Op_FAILURE) ys) \<and>
           (length ys = length pre \<or> length ys = Suc (length pre)) \<and>
           (\<forall>j < length ys. ol_state (fst (ys ! j)) \<noteq> Op_FAILURE \<longrightarrow> j < length pre) \<and>
           length (emitted_for p (List.map_filter snd ys)) =
             (if p \<notin> emitted st \<and> config_then_start C p (p \<in> dom (last_configured st)) pre
              then 1 else 0)"
      by (simp add: map_filter_snd_failed)
    then show ?thesis by blast
  qed
qed

text \<open>
  C1. If the first k operations of the plan run without failure and the executor
  returns FAILURE for the operation at index k (\<open>k = length pre\<close>), the run ends with
  the deployment in state FAILURE; exactly k + 1 operations were yielded and the
  executor is left in the state its call on the operation at index k returned, so it
  was not called on any operation after index k; the operation at index k is recorded
  as FAILURE; the operations after index k are the plan's entries unchanged (PLANNED
  when they were PLANNED); and the log holds as many operations as the plan.
\<close>

theorem C1_failure_stops_deployment:
  assumes ops: "operations log = pre @ l # post"
    and pre: "run_operations C ex gh (dl_id log) pre (initial_state stale es (now + 1))
                = Inr (ys, rest, Dep_SUCCESS, st1)"
    and op: "C (operation l) = Some op" "\<not> noop op"
    and fail: "fst (fst (ex (executor_state st1) op)) = FAILURE"
  shows "\<exists>r. run C ex gh stale es now log = Inr r \<and>
            dl_state (deployment_log r) = Dep_FAILURE \<and>
            length (yielded r) = Suc (length pre) \<and>
            executor_state (runner r) = snd (ex (executor_state st1) op) \<and>
            length (operations (deployment_log r)) = length (operations log) \<and>
            ol_state (operations (deployment_log r) ! length pre) = Op_FAILURE \<and>
            drop (Suc (length pre)) (operations (deployment_log r)) = post \<and>
            ((\<forall>x \<in> set post. ol_state x = Op_PLANNED) \<longrightarrow>
               (\<forall>j. length pre < j \<and> j < length (operations log) \<longrightarrow>
                    ol_state (operations (deployment_log r) ! j) = Op_PLANNED))"
proof -
  from run_operations_success_rest[OF pre] have len: "length ys = length pre" by simp
  from op fail have "\<exists>l' cv st'. run_operations C ex gh (dl_id log) (l # post) st1
             = Inr ([(l', cv)], post, Dep_FAILURE, st')
           \<and> ol_state l' = Op_FAILURE \<and> operation l' = operation l
           \<and> executor_state st' = snd (ex (executor_state st1) op)"
    by (rule run_operations_fail_state)
  then obtain l' cv st' where
    here: "run_operations C ex gh (dl_id log) (l # post) st1
             = Inr ([(l', cv)], post, Dep_FAILURE, st')"
    and l': "ol_state l' = Op_FAILURE"
    and es': "executor_state st' = snd (ex (executor_state st1) op)" by blast
  from run_operations_append[OF pre, of "l # post"] here ops
  have all: "run_operations C ex gh (dl_id log) (operations log)
               (initial_state stale es (now + 1))
             = Inr (ys @ [(l', cv)], post, Dep_FAILURE, st')" by simp
  from ops have ne: "operations log \<noteq> []" by simp
  let ?ops = "map fst ys @ l' # post"
  from run_unfold[OF ne all] obtain r where
    r: "run C ex gh stale es now log = Inr r" and
    o: "operations (deployment_log r) = ?ops" and
    a: "dl_state (deployment_log r) = Dep_FAILURE" and
    y: "yielded r = ys @ [(l', cv)]" and
    x: "executor_state (runner r) = executor_state st'"
    by simp
  have c: "length ?ops = length (operations log)" using len ops by simp
  have d: "ol_state (?ops ! length pre) = Op_FAILURE"
    using len l' by (simp add: nth_append)
  have e: "drop (Suc (length pre)) ?ops = post" using len by simp
  have f: "(\<forall>x \<in> set post. ol_state x = Op_PLANNED) \<longrightarrow>
               (\<forall>j. length pre < j \<and> j < length (operations log) \<longrightarrow>
                    ol_state (?ops ! j) = Op_PLANNED)"
  proof (intro impI allI)
    fix j
    assume pl: "\<forall>x \<in> set post. ol_state x = Op_PLANNED"
      and j: "length pre < j \<and> j < length (operations log)"
    then have lt: "j - Suc (length pre) < length post" using ops by auto
    have le: "Suc (length pre) \<le> length ?ops" using len by simp
    have "post ! (j - Suc (length pre)) = drop (Suc (length pre)) ?ops ! (j - Suc (length pre))"
      unfolding e ..
    also have "\<dots> = ?ops ! (Suc (length pre) + (j - Suc (length pre)))"
      using le by (rule nth_drop)
    also have "Suc (length pre) + (j - Suc (length pre)) = j" using j by arith
    finally have "?ops ! j = post ! (j - Suc (length pre))" by simp
    with lt pl show "ol_state (?ops ! j) = Op_PLANNED" by simp
  qed
  show ?thesis
  proof (intro exI[of _ r] conjI)
    show "run C ex gh stale es now log = Inr r" by (rule r)
    show "dl_state (deployment_log r) = Dep_FAILURE" by (rule a)
    show "length (yielded r) = Suc (length pre)" unfolding y using len by simp
    show "executor_state (runner r) = snd (ex (executor_state st1) op)"
      unfolding x by (rule es')
    show "length (operations (deployment_log r)) = length (operations log)"
      unfolding o by (rule c)
    show "ol_state (operations (deployment_log r) ! length pre) = Op_FAILURE"
      unfolding o by (rule d)
    show "drop (Suc (length pre)) (operations (deployment_log r)) = post"
      unfolding o by (rule e)
    show "(\<forall>x \<in> set post. ol_state x = Op_PLANNED) \<longrightarrow>
               (\<forall>j. length pre < j \<and> j < length (operations log) \<longrightarrow>
                    ol_state (operations (deployment_log r) ! j) = Op_PLANNED)"
      unfolding o by (rule f)
  qed
qed

theorem C1_witness:
  "\<exists>r. run minimal_collections FailingExecutor mock_hash [] 0 0
           (planned_deployment DAG [''mock_install'', ''mock_config'', ''mock_start'',
                                    ''mock_init'']) = Inr r \<and>
       dl_state (deployment_log r) = Dep_FAILURE \<and>
       length (yielded r) = 2 \<and>
       executor_state (runner r) = 1 \<and>
       length (operations (deployment_log r)) = 4 \<and>
       ol_state (operations (deployment_log r) ! 1) = Op_FAILURE \<and>
       drop 2 (operations (deployment_log r))
         = [planned_operation ''mock_start'', planned_operation ''mock_init'']"
proof -
  let ?log = "planned_deployment DAG [''mock_install'', ''mock_config'', ''mock_start'',
                                      ''mock_init'']"
  let ?pre = "[planned_operation ''mock_install'']"
  let ?l = "planned_operation ''mock_config''"
  let ?post = "[planned_operation ''mock_start'', planned_operation ''mock_init'']"
  let ?op = "snd (mock_operation ''mock'' None ''config'' False)"
  have ops: "operations ?log = ?pre @ ?l # ?post" by (simp add: planned_deployment_def)
  have "case run_operations minimal_collections FailingExecutor mock_hash (dl_id ?log) ?pre
               (initial_state [] 0 (0 + 1)) of
          Inl e \<Rightarrow> False
        | Inr (ys, rest, out, st1) \<Rightarrow> out = Dep_SUCCESS \<and> executor_state st1 = Suc 0"
    by code_simp
  then obtain ys rest st1 where
    pre: "run_operations minimal_collections FailingExecutor mock_hash (dl_id ?log) ?pre
            (initial_state [] 0 (0 + 1)) = Inr (ys, rest, Dep_SUCCESS, st1)"
    and es: "executor_state st1 = Suc 0"
    by (auto split: sum.splits)
  have op: "minimal_collections (operation ?l) = Some ?op" "\<not> noop ?op" by code_simp+
  have fail: "fst (fst (FailingExecutor (executor_state st1) ?op)) = FAILURE"
    unfolding es by (simp add: FailingExecutor_def)
  have after: "snd (FailingExecutor (executor_state st1) ?op) = 1"
    unfolding es by (simp add: FailingExecutor_def)
  from C1_failure_stops_deployment[OF ops pre op fail]
  obtain r where "run minimal_collections FailingExecutor mock_hash [] 0 0 ?log = Inr r"
    "dl_state (deployment_log r) = Dep_FAILURE"
    "length (yielded r) = Suc (length ?pre)"
    "executor_state (runner r) = snd (FailingExecutor (executor_state st1) ?op)"
    "length (operations (deployment_log r)) = length (operations ?log)"
    "ol_state (operations (deployment_log r) ! length ?pre) = Op_FAILURE"
    "drop (Suc (length ?pre)) (operations (deployment_log r)) = ?post"
    by blast
  then show ?thesis unfolding after by (auto simp: numeral_2_eq_2 planned_deployment_def)
qed

text \<open>
  C2. For every failed deployment log with at least one FAILURE operation,
  \<^verbatim>\<open>from_failed_deployment\<close> gives a plan of type RESUME whose length is the failed
  plan's length minus the index of the first failed operation, whose first operation
  has the failed operation's name, and whose operation names are the failed plan's
  names from that index on, in the same order.
\<close>

theorem C2_resume_starts_at_first_failure:
  assumes "\<exists>l \<in> set (operations failed). ol_state l = Op_FAILURE"
  shows "\<exists>plan. from_failed_deployment collections failed = Inr plan \<and>
           deployment_type plan = RESUME \<and>
           index_of_first_failure (operations failed) < length (operations failed) \<and>
           ol_state (operations failed ! index_of_first_failure (operations failed)) = Op_FAILURE \<and>
           (\<forall>j < index_of_first_failure (operations failed).
              ol_state (operations failed ! j) \<noteq> Op_FAILURE) \<and>
           length (operations plan) =
             length (operations failed) - index_of_first_failure (operations failed) \<and>
           operation (operations plan ! 0) =
             operation (operations failed ! index_of_first_failure (operations failed)) \<and>
           map operation (operations plan) =
             drop (index_of_first_failure (operations failed)) (map operation (operations failed))"
proof -
  let ?ls = "operations failed"
  let ?k = "index_of_first_failure ?ls"
  let ?names = "map operation (drop ?k ?ls)"
  from index_of_first_failure_found[OF assms]
  have k: "?k < length ?ls" and st: "ol_state (?ls ! ?k) = Op_FAILURE" by simp_all
  then have ne: "?names \<noteq> []" by simp
  let ?plan = "planned_deployment RESUME ?names"
  have res: "from_failed_deployment collections failed = Inr ?plan"
    using ne by (simp add: from_failed_deployment_def dropWhile_first_failure)
  have ops: "map operation (operations ?plan) = ?names"
    by (simp add: planned_deployment_def planned_operation_def comp_def)
  have len: "length (operations ?plan) = length ?ls - ?k"
    by (simp add: planned_deployment_def)
  have ty: "deployment_type ?plan = RESUME" by (simp add: planned_deployment_def)
  have "operation (operations ?plan ! 0) = map operation (operations ?plan) ! 0"
    using len k by (simp add: nth_map del: length_map)
  also have "\<dots> = operation (?ls ! ?k)" unfolding ops using k by (simp add: nth_map)
  finally have first: "operation (operations ?plan ! 0) = operation (?ls ! ?k)" .
  have before: "\<forall>j < ?k. ol_state (?ls ! j) \<noteq> Op_FAILURE"
    using index_of_first_failure_first by blast
  from res ty k st before len first ops show ?thesis by (simp add: drop_map)
qed

theorem C2_witness:
  "\<exists>plan. from_failed_deployment minimal_collections failed_deployment_example = Inr plan \<and>
          deployment_type plan = RESUME \<and>
          length (operations plan) = 3 \<and>
          operation (operations plan ! 0) = ''mock_config'' \<and>
          map operation (operations plan) = [''mock_config'', ''mock_start'', ''mock_init'']"
proof -
  have h: "\<exists>l \<in> set (operations failed_deployment_example). ol_state l = Op_FAILURE"
    by code_simp
  have k: "index_of_first_failure (operations failed_deployment_example) = 1" by code_simp
  have n: "map operation (operations failed_deployment_example)
         = [''mock_install'', ''mock_config'', ''mock_start'', ''mock_init'']" by code_simp
  have m: "operation (operations failed_deployment_example ! 1) = ''mock_config''" by code_simp
  have len: "length (operations failed_deployment_example) = 4" by code_simp
  from C2_resume_starts_at_first_failure[OF h, of minimal_collections]
  obtain plan where
    "from_failed_deployment minimal_collections failed_deployment_example = Inr plan"
    "deployment_type plan = RESUME"
    "length (operations plan) = 4 - 1"
    "operation (operations plan ! 0) = ''mock_config''"
    "map operation (operations plan)
       = drop 1 [''mock_install'', ''mock_config'', ''mock_start'', ''mock_init'']"
    unfolding k n m len by blast
  then show ?thesis by auto
qed

text \<open>
  C3. In every deployment whose plan holds a config of a (service, component) pair
  followed, anywhere later, by a start or restart of that pair which is executed
  successfully (config; start; restart, or configs repeated around the start and the
  restart, as in config; start; config; restart), exactly one ComponentVersionLog is
  emitted for the pair within the deployment, whatever else the plan holds and
  whether or not a later operation fails. The start is the operation at index
  \<open>Suc (length xs + length ys)\<close>; that it was yielded as SUCCESS implies that the
  config before it succeeded too.
\<close>

theorem C3_config_then_start_emits_once:
  assumes run: "run C ex gh stale es now log = Inr r"
    and plan: "operations log = xs @ c # ys @ s # zs"
    and c: "config_on C p c" and s: "start_on C p s"
    and started: "Suc (length xs + length ys) < length (yielded r)"
    and succeeded: "ol_state (fst (yielded r ! Suc (length xs + length ys))) = Op_SUCCESS"
  shows "length (emitted_for p (component_version (deployment_log r))) =
         Suc (length (emitted_for p (component_version log)))"
proof -
  from plan have ne: "operations log \<noteq> []" by simp
  from run ne obtain ys' rest outcome st where
    ro: "run_operations C ex gh (dl_id log) (operations log)
           (initial_state stale es (now + 1)) = Inr (ys', rest, outcome, st)"
    and cv: "component_version (deployment_log r) = component_version log @ List.map_filter snd ys'"
    and yr: "yielded r = ys'"
    by (rule run_Inr_elim)
  let ?st0 = "initial_state stale es (now + 1)"
  let ?j = "Suc (length xs + length ys)"
  from emission_count_any[OF ro, of p] obtain pre suf where
    split: "operations log = pre @ suf" and
    idx: "\<forall>j < length ys'. ol_state (fst (ys' ! j)) \<noteq> Op_FAILURE \<longrightarrow> j < length pre" and
    count: "length (emitted_for p (List.map_filter snd ys')) =
             (if p \<notin> emitted ?st0 \<and> config_then_start C p (p \<in> dom (last_configured ?st0)) pre
              then 1 else 0)"
    by blast
  from started succeeded idx yr have j: "?j < length pre" by simp
  have "pre = take (length pre) (operations log)" unfolding split by simp
  also have "\<dots> = take (length pre) ((xs @ c # ys) @ s # zs)" unfolding plan by simp
  also have "\<dots> = (xs @ c # ys) @ s # take (length pre - Suc (length (xs @ c # ys))) zs"
    by (rule take_past_prefix) (use j in simp)
  finally have pre: "pre = xs @ c # ys @ s # take (length pre - Suc (length (xs @ c # ys))) zs"
    by simp
  have "config_then_start C p (p \<in> dom (last_configured ?st0)) pre"
    by (subst pre) (rule config_then_start_decomposed[OF c s])
  moreover have "p \<notin> emitted ?st0" by (simp add: initial_state_def)
  ultimately have "length (emitted_for p (List.map_filter snd ys')) = 1"
    using count by simp
  then show ?thesis unfolding cv emitted_for_append by simp
qed

theorem C3_witness:
  "(\<exists>r. run minimal_collections MockExecutor mock_hash [] () 0
            (planned_deployment OPERATIONS [''mock_config'', ''mock_start'', ''mock_restart''])
          = Inr r \<and>
        dl_state (deployment_log r) = Dep_SUCCESS \<and>
        length (emitted_for (''mock'', None) (component_version (deployment_log r))) = 1) \<and>
   (\<exists>r. run minimal_collections MockExecutor mock_hash [] () 0
            (planned_deployment OPERATIONS [''mock_node_config'', ''mock_node_start'',
                                           ''mock_node_config'', ''mock_node_restart''])
          = Inr r \<and>
        dl_state (deployment_log r) = Dep_SUCCESS \<and>
        length (emitted_for (''mock'', Some ''node'') (component_version (deployment_log r))) = 1) \<and>
   (\<exists>r. run minimal_collections InstallFailingExecutor mock_hash [] () 0
            (planned_deployment OPERATIONS [''mock_config'', ''mock_start'', ''mock_restart'',
                                           ''mock_install''])
          = Inr r \<and>
        dl_state (deployment_log r) = Dep_FAILURE \<and>
        length (emitted_for (''mock'', None) (component_version (deployment_log r))) = 1)"
proof -
  let ?a = "planned_deployment OPERATIONS [''mock_config'', ''mock_start'', ''mock_restart'']"
  let ?b = "planned_deployment OPERATIONS [''mock_node_config'', ''mock_node_start'',
                                          ''mock_node_config'', ''mock_node_restart'']"
  let ?c = "planned_deployment OPERATIONS [''mock_config'', ''mock_start'', ''mock_restart'',
                                          ''mock_install'']"
  let ?none = "[] :: OperationLog list"
  have "case run minimal_collections MockExecutor mock_hash [] () 0 ?a of
          Inl e \<Rightarrow> False
        | Inr r \<Rightarrow> dl_state (deployment_log r) = Dep_SUCCESS \<and> 1 < length (yielded r) \<and>
                   ol_state (fst (yielded r ! 1)) = Op_SUCCESS"
    by code_simp
  then obtain ra where ra: "run minimal_collections MockExecutor mock_hash [] () 0 ?a = Inr ra"
    "dl_state (deployment_log ra) = Dep_SUCCESS"
    "Suc (length ?none + length ?none) < length (yielded ra)"
    "ol_state (fst (yielded ra ! Suc (length ?none + length ?none))) = Op_SUCCESS"
    by (auto split: sum.splits)
  have pa: "operations ?a = [] @ planned_operation ''mock_config'' # []
                @ planned_operation ''mock_start'' # [planned_operation ''mock_restart'']"
    by (simp add: planned_deployment_def)
  have ca: "config_on minimal_collections (''mock'', None) (planned_operation ''mock_config'')"
    and sa: "start_on minimal_collections (''mock'', None) (planned_operation ''mock_start'')"
    by code_simp+
  have "case run minimal_collections MockExecutor mock_hash [] () 0 ?b of
          Inl e \<Rightarrow> False
        | Inr r \<Rightarrow> dl_state (deployment_log r) = Dep_SUCCESS \<and> 1 < length (yielded r) \<and>
                   ol_state (fst (yielded r ! 1)) = Op_SUCCESS"
    by code_simp
  then obtain rb where rb: "run minimal_collections MockExecutor mock_hash [] () 0 ?b = Inr rb"
    "dl_state (deployment_log rb) = Dep_SUCCESS"
    "Suc (length ?none + length ?none) < length (yielded rb)"
    "ol_state (fst (yielded rb ! Suc (length ?none + length ?none))) = Op_SUCCESS"
    by (auto split: sum.splits)
  have pb: "operations ?b = [] @ planned_operation ''mock_node_config'' # []
                @ planned_operation ''mock_node_start'' #
                [planned_operation ''mock_node_config'', planned_operation ''mock_node_restart'']"
    by (simp add: planned_deployment_def)
  have cb: "config_on minimal_collections (''mock'', Some ''node'')
              (planned_operation ''mock_node_config'')"
    and sb: "start_on minimal_collections (''mock'', Some ''node'')
              (planned_operation ''mock_node_start'')"
    by code_simp+
  have "case run minimal_collections InstallFailingExecutor mock_hash [] () 0 ?c of
          Inl e \<Rightarrow> False
        | Inr r \<Rightarrow> dl_state (deployment_log r) = Dep_FAILURE \<and> 1 < length (yielded r) \<and>
                   ol_state (fst (yielded r ! 1)) = Op_SUCCESS"
    by code_simp
  then obtain rc where rc: "run minimal_collections InstallFailingExecutor mock_hash [] () 0 ?c = Inr rc"
    "dl_state (deployment_log rc) = Dep_FAILURE"
    "Suc (length ?none + length ?none) < length (yielded rc)"
    "ol_state (fst (yielded rc ! Suc (length ?none + length ?none))) = Op_SUCCESS"
    by (auto split: sum.splits)
  have pc: "operations ?c = [] @ planned_operation ''mock_config'' # []
                @ planned_operation ''mock_start'' #
                [planned_operation ''mock_restart'', planned_operation ''mock_install'']"
    by (simp add: planned_deployment_def)
  have fresh: "component_version ?a = []" "component_version ?b = []" "component_version ?c = []"
    by (simp_all add: planned_deployment_def)
  from C3_config_then_start_emits_once[OF ra(1) pa ca sa ra(3,4)] fresh
  have ea: "length (emitted_for (''mock'', None) (component_version (deployment_log ra))) = 1"
    by (simp add: emitted_for_def)
  from C3_config_then_start_emits_once[OF rb(1) pb cb sb rb(3,4)] fresh
  have eb: "length (emitted_for (''mock'', Some ''node'') (component_version (deployment_log rb))) = 1"
    by (simp add: emitted_for_def)
  from C3_config_then_start_emits_once[OF rc(1) pc ca sa rc(3,4)] fresh
  have ec: "length (emitted_for (''mock'', None) (component_version (deployment_log rc))) = 1"
    by (simp add: emitted_for_def)
  from ra rb rc ea eb ec show ?thesis by blast
qed




end
